theory Spec2Isabelle
  imports Main "HOL-Library.AList"
begin

section \<open>JSON values\<close>

text \<open>
  The \<open>metadata\<close> column is declared \<open>json("metadata")\<close>, so a stored value is any JSON
  value. Objects are association lists; a key is looked up with \<open>map_of\<close> and written with
  \<open>AList.update\<close> (an existing key keeps its place, a new one goes to the end). Numbers are
  integers here: the code only tests a number for being zero and writes a list length.
\<close>

datatype json =
    JNull
  | JBool bool
  | JNum int
  | JStr string
  | JArr "json list"
  | JObj "(string \<times> json) list"

text \<open>JavaScript truthiness, as used by \<open>x || y\<close> and \<open>x && y\<close>.\<close>

fun truthy :: "json \<Rightarrow> bool" where
  "truthy JNull = False"
| "truthy (JBool b) = b"
| "truthy (JNum n) = (n \<noteq> 0)"
| "truthy (JStr s) = (s \<noteq> [])"
| "truthy (JArr xs) = True"
| "truthy (JObj kvs) = True"

definition digit_char :: "nat \<Rightarrow> char" where
  "digit_char d = char_of (48 + d)"

fun string_of_nat :: "nat \<Rightarrow> string" where
  "string_of_nat n =
     (if n < 10 then [digit_char n]
      else string_of_nat (n div 10) @ [digit_char (n mod 10)])"

text \<open>
  The own enumerable properties that an object spread \<open>{...v}\<close> copies: the entries of an
  object, the indexed elements of an array, the indexed characters of a string, and nothing
  for a number or a boolean.
\<close>

fun spread :: "json \<Rightarrow> (string \<times> json) list" where
  "spread (JObj kvs) = kvs"
| "spread (JArr xs) = zip (map string_of_nat [0..<length xs]) xs"
| "spread (JStr s) = zip (map string_of_nat [0..<length s]) (map (\<lambda>c. JStr [c]) s)"
| "spread v = []"

text \<open>Reading a named property \<open>v.k\<close> where \<open>k\<close> is not an index or \<open>length\<close>;
  \<open>None\<close> is \<open>undefined\<close>.\<close>

fun get_prop :: "json \<Rightarrow> string \<Rightarrow> json option" where
  "get_prop (JObj kvs) k = map_of kvs k"
| "get_prop v k = None"

section \<open>The conversions table (shared schema)\<close>

text \<open>
  \<open>Conversion = typeof conversions.$inferSelect\<close>. A nullable column is an \<open>option\<close>
  (\<open>None\<close> is \<open>null\<close>); \<open>metadata\<close> holds \<open>JNull\<close> for \<open>null\<close>. A \<open>Date\<close> is a number
  of milliseconds. The column \<open>id\<close> is the field \<open>conversion_id\<close>.
\<close>

record conversion =
  conversion_id :: string
  fromFormat :: string
  toFormat :: string
  originalFilename :: string
  filePath :: string
  fileSize :: int
  status :: string
  downloadUrl :: "string option"
  createdAt :: "nat option"
  completedAt :: "nat option"
  metadata :: json

text \<open>
  \<open>InsertConversion\<close>: the insert schema omits \<open>id\<close>, \<open>createdAt\<close> and \<open>completedAt\<close>;
  \<open>status\<close>, \<open>downloadUrl\<close> and \<open>metadata\<close> are optional (\<open>None\<close> is an absent or
  \<open>null\<close> value).
\<close>

record insert_conversion =
  ins_fromFormat :: string
  ins_toFormat :: string
  ins_originalFilename :: string
  ins_filePath :: string
  ins_fileSize :: int
  ins_status :: "string option"
  ins_downloadUrl :: "string option"
  ins_metadata :: "json option"

text \<open>
  \<open>Partial<Conversion>\<close>: every key is optional. \<open>None\<close> is a key that the object does not
  have; \<open>Some v\<close> is a key with the value \<open>v\<close>.
\<close>

record conversion_updates =
  upd_id :: "string option"
  upd_fromFormat :: "string option"
  upd_toFormat :: "string option"
  upd_originalFilename :: "string option"
  upd_filePath :: "string option"
  upd_fileSize :: "int option"
  upd_status :: "string option"
  upd_downloadUrl :: "string option option"
  upd_createdAt :: "nat option option"
  upd_completedAt :: "nat option option"
  upd_metadata :: "json option"

definition no_updates :: conversion_updates where
  "no_updates =
     \<lparr>upd_id = None, upd_fromFormat = None, upd_toFormat = None,
      upd_originalFilename = None, upd_filePath = None, upd_fileSize = None,
      upd_status = None, upd_downloadUrl = None, upd_createdAt = None,
      upd_completedAt = None, upd_metadata = None\<rparr>"

section \<open>Environment and process state\<close>

text \<open>
  What the code reads from outside itself. \<open>randomUUID env n\<close> is the result of the
  \<open>n\<close>-th call of \<open>randomUUID()\<close> made by the conversion code and \<open>clock env n\<close> the value
  of its \<open>n\<close>-th \<open>new Date()\<close>. \<open>JSON_parse\<close> is \<open>None\<close> where \<open>JSON.parse\<close> throws.
  \<open>insertConversionSchema\<close> tells whether \<open>insertConversionSchema.parse\<close> accepts a value
  (the schema is derived from the table by \<open>createInsertSchema\<close>, a library that is not
  part of the repository); an accepted value is returned as it is, a rejected one throws a
  \<open>ZodError\<close>. \<open>fs_access\<close> tells whether \<open>fs.access\<close> resolves; \<open>path_extname\<close> and
  \<open>path_basename\<close> are the functions of Node's \<open>path\<close> module.
\<close>

record env =
  randomUUID :: "nat \<Rightarrow> string"
  clock :: "nat \<Rightarrow> nat"
  JSON_parse :: "string \<Rightarrow> json option"
  insertConversionSchema :: "insert_conversion \<Rightarrow> bool"
  fs_access :: "string \<Rightarrow> bool"
  path_extname :: "string \<Rightarrow> string"
  path_basename :: "string \<Rightarrow> string \<Rightarrow> string"

datatype log_entry = Warn string string | LogError string | Log string

text \<open>The three routes that create conversions: \<open>POST /api/conversions\<close>, the legacy
  \<open>POST /api/convert\<close> and \<open>POST /api/conversions/batch\<close>. Each registers its own
  callback.\<close>

datatype endpoint = NewEndpoint | LegacyEndpoint | BatchEndpoint

text \<open>
  \<open>conversions\<close> is the \<open>Map\<close> of \<open>MockStorage\<close>, in insertion order. \<open>timers\<close> are the
  callbacks registered with \<open>setTimeout\<close> that have not run yet: the id of the conversion
  each one closes over, its total delay in milliseconds and the route that registered it.
\<close>

record state =
  conversions :: "(string \<times> conversion) list"
  uuid_calls :: nat
  date_calls :: nat
  timers :: "(string \<times> nat \<times> endpoint) list"
  console :: "log_entry list"

definition initial_state :: state where
  "initial_state =
     \<lparr>conversions = [], uuid_calls = 0, date_calls = 0, timers = [], console = []\<rparr>"

section \<open>MockStorage\<close>

definition getConversion :: "string \<Rightarrow> state \<Rightarrow> conversion option" where
  "getConversion cid st = map_of (conversions st) cid"

text \<open>\<open>a || b\<close> on an optional string: an absent, \<open>null\<close> or empty \<open>a\<close> gives \<open>b\<close>.\<close>

fun or_else :: "string option \<Rightarrow> 'a \<Rightarrow> (string \<Rightarrow> 'a) \<Rightarrow> 'a" where
  "or_else None d f = d"
| "or_else (Some s) d f = (if s = [] then d else f s)"

definition createConversion ::
  "env \<Rightarrow> insert_conversion \<Rightarrow> state \<Rightarrow> conversion \<times> state" where
  "createConversion e insertConversion st =
     (let cid = randomUUID e (uuid_calls st);
          now = clock e (date_calls st);
          conversion =
            \<lparr>conversion_id = cid,
             fromFormat = ins_fromFormat insertConversion,
             toFormat = ins_toFormat insertConversion,
             originalFilename = ins_originalFilename insertConversion,
             filePath = ins_filePath insertConversion,
             fileSize = ins_fileSize insertConversion,
             status = or_else (ins_status insertConversion) ''pending'' (\<lambda>s. s),
             downloadUrl = or_else (ins_downloadUrl insertConversion) None Some,
             createdAt = Some now,
             completedAt = None,
             metadata =
               (case ins_metadata insertConversion of
                  None \<Rightarrow> JNull
                | Some m \<Rightarrow> if truthy m then m else JNull)\<rparr>
      in (conversion,
          st\<lparr>conversions := AList.update cid conversion (conversions st),
             uuid_calls := Suc (uuid_calls st),
             date_calls := Suc (date_calls st)\<rparr>))"

text \<open>\<open>{ ...existing, ...updates }\<close>: a key of \<open>updates\<close> replaces the field, any other
  field stays.\<close>

fun pick :: "'a option \<Rightarrow> 'a \<Rightarrow> 'a" where
  "pick None old = old"
| "pick (Some v) old = v"

definition merge_updates :: "conversion \<Rightarrow> conversion_updates \<Rightarrow> conversion" where
  "merge_updates existing updates =
     \<lparr>conversion_id = pick (upd_id updates) (conversion_id existing),
      fromFormat = pick (upd_fromFormat updates) (fromFormat existing),
      toFormat = pick (upd_toFormat updates) (toFormat existing),
      originalFilename = pick (upd_originalFilename updates) (originalFilename existing),
      filePath = pick (upd_filePath updates) (filePath existing),
      fileSize = pick (upd_fileSize updates) (fileSize existing),
      status = pick (upd_status updates) (status existing),
      downloadUrl = pick (upd_downloadUrl updates) (downloadUrl existing),
      createdAt = pick (upd_createdAt updates) (createdAt existing),
      completedAt = pick (upd_completedAt updates) (completedAt existing),
      metadata = pick (upd_metadata updates) (metadata existing)\<rparr>"

definition updateConversion ::
  "string \<Rightarrow> conversion_updates \<Rightarrow> state \<Rightarrow> conversion option \<times> state" where
  "updateConversion cid updates st =
     (case map_of (conversions st) cid of
        None \<Rightarrow> (None, st)
      | Some existing \<Rightarrow>
          (let updated = merge_updates existing updates
           in (Some updated, st\<lparr>conversions := AList.update cid updated (conversions st)\<rparr>)))"

text \<open>\<open>Map.prototype.delete\<close> returns whether the key was present.\<close>

definition deleteConversion :: "string \<Rightarrow> state \<Rightarrow> bool \<times> state" where
  "deleteConversion cid st =
     (map_of (conversions st) cid \<noteq> None,
      st\<lparr>conversions := AList.delete cid (conversions st)\<rparr>)"

definition batch_metadata :: "json option \<Rightarrow> string \<Rightarrow> nat \<Rightarrow> json" where
  "batch_metadata m batchId n =
     JObj (AList.update ''batchSize'' (JNum (int n))
            (AList.update ''batchId'' (JStr batchId)
              (case m of
                 None \<Rightarrow> []
               | Some v \<Rightarrow> if truthy v then spread v else [])))"

text \<open>The \<open>for ... of\<close> loop of \<open>createBatchConversion\<close>; \<open>results\<close> is the array built so
  far and \<open>n\<close> is \<open>batchConversions.length\<close>.\<close>

fun createBatch_loop ::
  "env \<Rightarrow> string \<Rightarrow> nat \<Rightarrow> insert_conversion list \<Rightarrow> conversion list \<Rightarrow> state
     \<Rightarrow> conversion list \<times> state" where
  "createBatch_loop e batchId n [] results st = (results, st)"
| "createBatch_loop e batchId n (conv # rest) results st =
     (let (conversion, st') =
            createConversion e
              (conv\<lparr>ins_metadata := Some (batch_metadata (ins_metadata conv) batchId n)\<rparr>) st
      in createBatch_loop e batchId n rest (results @ [conversion]) st')"

definition createBatchConversion ::
  "env \<Rightarrow> insert_conversion list \<Rightarrow> state \<Rightarrow> conversion list \<times> state" where
  "createBatchConversion e batchConversions st =
     (let batchId = randomUUID e (uuid_calls st)
      in createBatch_loop e batchId (length batchConversions) batchConversions []
           (st\<lparr>uuid_calls := Suc (uuid_calls st)\<rparr>))"

definition in_batch :: "string \<Rightarrow> conversion \<Rightarrow> bool" where
  "in_batch batchId conv =
     (case metadata conv of
        JObj kvs \<Rightarrow> map_of kvs ''batchId'' = Some (JStr batchId)
      | _ \<Rightarrow> False)"

definition getBatchConversions :: "string \<Rightarrow> state \<Rightarrow> conversion list" where
  "getBatchConversions batchId st = filter (in_batch batchId) (map snd (conversions st))"

section \<open>Requests and responses\<close>

text \<open>
  A file as \<open>multer\<close> hands it over, and the fields of the multipart body that the handlers
  read (\<open>None\<close> is a field the request does not have).
\<close>

record upload =
  upload_originalname :: string
  upload_path :: string
  upload_size :: int
  upload_filename :: string
  upload_mimetype :: string

record form_body =
  body_fromFormat :: "string option"
  body_toFormat :: "string option"
  body_quality :: "string option"
  body_settings :: "string option"

record request = form_body +
  req_file :: "upload option"

record batch_request = form_body +
  req_files :: "upload list option"

datatype body =
    ErrorBody string
  | MessageBody string
  | InvalidData
  | ConversionBody conversion
  | ConversionsBody "conversion list"
  | BatchBody "json option" "conversion list" nat

text \<open>\<open>Json c b\<close> is \<open>res.status(c).json(b)\<close>; \<open>Download p n\<close> is \<open>res.download(p, n)\<close>.\<close>

datatype response =
    Json nat body
  | Download string string

section \<open>The deferred conversion task\<close>

definition processingTime :: "string option \<Rightarrow> nat" where
  "processingTime quality =
     (if quality = Some ''high'' then 3000
      else if quality = Some ''medium'' then 2000
      else 1000)"

definition completed_updates :: "string \<Rightarrow> nat \<Rightarrow> conversion_updates" where
  "completed_updates cid now =
     no_updates
       \<lparr>upd_status := Some ''completed'',
        upd_downloadUrl := Some (Some (''/api/download/'' @ cid)),
        upd_completedAt := Some (Some now)\<rparr>"

definition failed_updates :: conversion_updates where
  "failed_updates = no_updates\<lparr>upd_status := Some ''failed''\<rparr>"

text \<open>
  The body of the callback given to \<open>setTimeout\<close>, run when its delays have passed.
  The three routes register the same updates; they differ in what they write to the
  console: the legacy callback logs its progress, and the batch callback names the
  conversion in its error message. \<open>rejected\<close> tells whether the awaited \<open>storage.updateConversion\<close> of the \<open>try\<close> block
  threw. \<open>MockStorage.updateConversion\<close> has no statement that throws, so with the storage
  that the program uses \<open>rejected\<close> is \<open>False\<close>; the \<open>catch\<close> block is modelled for a
  storage call that rejects before it has written anything.
\<close>

definition conversion_task :: "env \<Rightarrow> endpoint \<Rightarrow> bool \<Rightarrow> string \<Rightarrow> state \<Rightarrow> state" where
  "conversion_task e ep rejected cid st =
     (let st0 =
            (if ep = LegacyEndpoint
             then st\<lparr>console := console st @
                     [Log (''Starting conversion for '' @ cid),
                      Log (''Updating conversion '' @ cid @ '' to completed'')]\<rparr>
             else st);
          now = clock e (date_calls st0);
          st1 = st0\<lparr>date_calls := Suc (date_calls st0)\<rparr>
      in if \<not> rejected
         then
           (let st2 = snd (updateConversion cid (completed_updates cid now) st1)
            in if ep = LegacyEndpoint
               then st2\<lparr>console := console st2 @
                      [Log (''Conversion '' @ cid @ '' completed successfully'')]\<rparr>
               else st2)
         else snd (updateConversion cid failed_updates
                    (st1\<lparr>console := console st1 @
                       [LogError
                          (if ep = BatchEndpoint
                           then ''Error processing conversion '' @ cid @ '':''
                           else ''Error processing conversion:'')]\<rparr>)))"

fun remove_timer :: "string \<Rightarrow> (string \<times> 'a) list \<Rightarrow> (string \<times> 'a) list" where
  "remove_timer cid [] = []"
| "remove_timer cid (t # ts) = (if fst t = cid then ts else t # remove_timer cid ts)"

text \<open>The event loop runs a registered callback once and drops it. \<open>map_of\<close> finds the
  first timer registered for the id, which is the one \<open>remove_timer\<close> drops.\<close>

definition timer_fires :: "env \<Rightarrow> string \<Rightarrow> bool \<Rightarrow> state \<Rightarrow> state" where
  "timer_fires e cid rejected st =
     (case map_of (timers st) cid of
        None \<Rightarrow> st
      | Some (delay, ep) \<Rightarrow>
          conversion_task e ep rejected cid (st\<lparr>timers := remove_timer cid (timers st)\<rparr>))"

section \<open>Route handlers\<close>

definition parse_settings :: "env \<Rightarrow> string option \<Rightarrow> state \<Rightarrow> json \<times> state" where
  "parse_settings e settings st =
     or_else settings (JObj [], st)
       (\<lambda>s. case JSON_parse e s of
               Some v \<Rightarrow> (v, st)
             | None \<Rightarrow> (JObj [], st\<lparr>console := console st @ [Warn ''Invalid settings JSON:'' s]\<rparr>))"

definition quality_or_high :: "string option \<Rightarrow> json" where
  "quality_or_high quality = JStr (or_else quality ''high'' (\<lambda>q. q))"

text \<open>\<open>!fromFormat || !toFormat\<close>\<close>

definition missing_format :: "string option \<Rightarrow> string option \<Rightarrow> bool" where
  "missing_format from_fmt to_fmt =
     (or_else from_fmt True (\<lambda>s. False) \<or> or_else to_fmt True (\<lambda>s. False))"

definition conversion_data ::
  "string option \<Rightarrow> string option \<Rightarrow> upload \<Rightarrow> (string \<times> json) list \<Rightarrow> insert_conversion" where
  "conversion_data from_fmt to_fmt file meta =
     \<lparr>ins_fromFormat = or_else from_fmt [] (\<lambda>s. s),
      ins_toFormat = or_else to_fmt [] (\<lambda>s. s),
      ins_originalFilename = upload_originalname file,
      ins_filePath = upload_path file,
      ins_fileSize = upload_size file,
      ins_status = Some ''pending'',
      ins_downloadUrl = None,
      ins_metadata = Some (JObj meta)\<rparr>"

text \<open>\<open>POST /api/conversions\<close>\<close>

definition post_conversions :: "env \<Rightarrow> request \<Rightarrow> state \<Rightarrow> response \<times> state" where
  "post_conversions e req st =
     (case req_file req of
        None \<Rightarrow> (Json 400 (ErrorBody ''No file uploaded''), st)
      | Some file \<Rightarrow>
          if missing_format (body_fromFormat req) (body_toFormat req)
          then (Json 400 (ErrorBody ''Missing format parameters''), st)
          else
            (let (parsedSettings, st1) = parse_settings e (body_settings req) st;
                 conversionData =
                   conversion_data (body_fromFormat req) (body_toFormat req) file
                     [(''quality'', quality_or_high (body_quality req)),
                      (''settings'', parsedSettings)]
             in if \<not> insertConversionSchema e conversionData
                then (Json 400 InvalidData, st1)
                else
                  (let (conversion, st2) = createConversion e conversionData st1
                   in (Json 201 (ConversionBody conversion),
                       st2\<lparr>timers := timers st2 @
                              [(conversion_id conversion,
                                100 + processingTime (body_quality req), NewEndpoint)]\<rparr>))))"

text \<open>\<open>POST /api/convert\<close>, the legacy endpoint\<close>

definition post_convert :: "env \<Rightarrow> request \<Rightarrow> state \<Rightarrow> response \<times> state" where
  "post_convert e req st =
     (case req_file req of
        None \<Rightarrow> (Json 400 (MessageBody ''No file uploaded''), st)
      | Some file \<Rightarrow>
          if missing_format (body_fromFormat req) (body_toFormat req)
          then (Json 400 (MessageBody ''fromFormat and toFormat are required''), st)
          else
            (let (parsedSettings, st1) = parse_settings e (body_settings req) st;
                 conversionData =
                   conversion_data (body_fromFormat req) (body_toFormat req) file
                     [(''quality'', quality_or_high (body_quality req)),
                      (''settings'', parsedSettings),
                      (''uploadedFileName'', JStr (upload_filename file)),
                      (''originalName'', JStr (upload_originalname file)),
                      (''mimetype'', JStr (upload_mimetype file))]
             in if \<not> insertConversionSchema e conversionData
                then (Json 400 InvalidData, st1)
                else
                  (let (conversion, st2) = createConversion e conversionData st1
                   in (Json 200 (ConversionBody conversion),
                       st2\<lparr>timers := timers st2 @
                              [(conversion_id conversion,
                                100 + processingTime (body_quality req), LegacyEndpoint)]\<rparr>))))"

text \<open>
  \<open>POST /api/conversions/batch\<close>. The callback of the member at \<open>index\<close> is registered
  with delay \<open>100 + index * 100\<close> and then waits \<open>processingTime + index * 500\<close>.
  \<open>upload.array("files", 10)\<close> lets at most ten files reach the handler.
\<close>

definition batch_timers ::
  "string option \<Rightarrow> conversion list \<Rightarrow> (string \<times> nat \<times> endpoint) list" where
  "batch_timers quality convs =
     map (\<lambda>(index, conversion).
            (conversion_id conversion,
             100 + index * 100 + (processingTime quality + index * 500), BatchEndpoint))
         (enumerate 0 convs)"

definition post_conversions_batch ::
  "env \<Rightarrow> batch_request \<Rightarrow> state \<Rightarrow> response \<times> state" where
  "post_conversions_batch e req st =
     (case req_files req of
        None \<Rightarrow> (Json 400 (ErrorBody ''No files uploaded''), st)
      | Some files \<Rightarrow>
          if files = [] then (Json 400 (ErrorBody ''No files uploaded''), st)
          else if missing_format (body_fromFormat req) (body_toFormat req)
          then (Json 400 (ErrorBody ''Missing format parameters''), st)
          else
            (let (parsedSettings, st1) = parse_settings e (body_settings req) st;
                 conversionsData =
                   map (\<lambda>file.
                          conversion_data (body_fromFormat req) (body_toFormat req) file
                            [(''quality'', quality_or_high (body_quality req)),
                             (''settings'', parsedSettings),
                             (''isBatch'', JBool True)])
                       files
             in if \<not> list_all (insertConversionSchema e) conversionsData
                then (Json 400 InvalidData, st1)
                else
                  (let (convs, st2) = createBatchConversion e conversionsData st1;
                       st3 = st2\<lparr>timers := timers st2 @ batch_timers (body_quality req) convs\<rparr>
                   in case convs of
                        [] \<Rightarrow>
                          (Json 500 (ErrorBody ''Internal server error''),
                           st3\<lparr>console := console st3 @
                                  [LogError ''Error creating batch conversion:'']\<rparr>)
                      | first # others \<Rightarrow>
                          (Json 201
                             (BatchBody (get_prop (metadata first) ''batchId'') convs
                                (length convs)),
                           st3))))"

text \<open>\<open>GET /api/conversions/:id\<close> and \<open>GET /api/conversions/batch/:batchId\<close>\<close>

definition get_conversion :: "string \<Rightarrow> state \<Rightarrow> response" where
  "get_conversion cid st =
     (case getConversion cid st of
        None \<Rightarrow> Json 404 (ErrorBody ''Conversion not found'')
      | Some conversion \<Rightarrow> Json 200 (ConversionBody conversion))"

definition get_batch :: "string \<Rightarrow> state \<Rightarrow> response" where
  "get_batch batchId st = Json 200 (ConversionsBody (getBatchConversions batchId st))"

text \<open>\<open>GET /api/download/:id\<close>\<close>

definition get_download :: "env \<Rightarrow> string \<Rightarrow> state \<Rightarrow> response" where
  "get_download e cid st =
     (case getConversion cid st of
        None \<Rightarrow> Json 404 (ErrorBody ''Conversion not found'')
      | Some conversion \<Rightarrow>
          if status conversion \<noteq> ''completed''
          then Json 400 (ErrorBody ''Conversion not completed'')
          else if fs_access e (filePath conversion)
          then
            (let ext = path_extname e (originalFilename conversion);
                 baseName = path_basename e (originalFilename conversion) ext;
                 filename = baseName @ ''_converted.'' @ toFormat conversion
             in Download (filePath conversion) filename)
          else Json 404 (ErrorBody ''File not found''))"

section \<open>Runs of the system\<close>

text \<open>
  What can change the state: a request to one of the three submitting routes, a registered
  callback that runs, and a call of \<open>deleteConversion\<close>.
\<close>

datatype event =
    PostConversions request
  | PostConvert request
  | PostConversionsBatch batch_request
  | TimerFires string bool
  | DeleteConversion string

fun step :: "env \<Rightarrow> event \<Rightarrow> state \<Rightarrow> state" where
  "step e (PostConversions req) st = snd (post_conversions e req st)"
| "step e (PostConvert req) st = snd (post_convert e req st)"
| "step e (PostConversionsBatch req) st = snd (post_conversions_batch e req st)"
| "step e (TimerFires cid rejected) st = timer_fires e cid rejected st"
| "step e (DeleteConversion cid) st = snd (deleteConversion cid st)"

definition run :: "env \<Rightarrow> event list \<Rightarrow> state \<Rightarrow> state" where
  "run e evs st = fold (step e) evs st"



section \<open>Invariants of the runs\<close>

text \<open>
  \<open>issued e st k\<close>: \<open>k\<close> is one of the identifiers that \<open>randomUUID\<close> has returned
  so far. \<open>record_ok waiting k r\<close>: the record \<open>r\<close> stored under \<open>k\<close> carries that id and
  is either still pending with no download reference and no completion time (\<open>waiting\<close>:
  its callback has not run), or completed with both, or failed with neither.
  \<open>ginv e ps st\<close> holds when every stored record is issued and \<open>record_ok\<close>, where the
  waiting ids are those of the registered callbacks and of \<open>ps\<close> (records created inside a
  batch whose callbacks are registered after the loop), these ids are issued and distinct,
  and the keys of the store are distinct. \<open>binv\<close>: every batch id found in a stored
  record is issued. \<open>valid_insert\<close>: what the submitting routes pass to
  \<open>createConversion\<close>, namely the status \<open>pending\<close> and no download reference.
  \<open>advances s s'\<close>: the status stays, or goes from \<open>pending\<close> to a terminal value.
\<close>

definition issued :: "env \<Rightarrow> state \<Rightarrow> string \<Rightarrow> bool" where
  "issued e st k = (\<exists>j < uuid_calls st. k = randomUUID e j)"

definition record_ok :: "bool \<Rightarrow> string \<Rightarrow> conversion \<Rightarrow> bool" where
  "record_ok waiting k r =
     (conversion_id r = k \<and>
      (if waiting
       then status r = ''pending'' \<and> downloadUrl r = None \<and> completedAt r = None
       else (status r = ''completed'' \<and> downloadUrl r \<noteq> None \<and> completedAt r \<noteq> None)
          \<or> (status r = ''failed'' \<and> downloadUrl r = None \<and> completedAt r = None)))"

definition ginv :: "env \<Rightarrow> string list \<Rightarrow> state \<Rightarrow> bool" where
  "ginv e ps st =
     ((\<forall>k r. map_of (conversions st) k = Some r \<longrightarrow>
         issued e st k \<and> record_ok (k \<in> set (map fst (timers st) @ ps)) k r)
      \<and> (\<forall>k \<in> set (map fst (timers st) @ ps). issued e st k)
      \<and> distinct (map fst (timers st) @ ps)
      \<and> distinct (map fst (conversions st)))"

definition valid_insert :: "insert_conversion \<Rightarrow> bool" where
  "valid_insert ins =
     (or_else (ins_status ins) ''pending'' (\<lambda>s. s) = ''pending''
      \<and> or_else (ins_downloadUrl ins) None Some = None)"


definition binv :: "env \<Rightarrow> state \<Rightarrow> bool" where
  "binv e st =
     (\<forall>k r b. map_of (conversions st) k = Some r \<longrightarrow> in_batch b r \<longrightarrow> issued e st b)"

section \<open>Example data\<close>

text \<open>A concrete environment, request and store, on which the theorems below are run.\<close>

definition example_env :: env where
  "example_env =
     \<lparr>randomUUID = (\<lambda>n. replicate (Suc n) CHR ''u''),
      clock = (\<lambda>n. 1000 + n),
      JSON_parse = (\<lambda>s. if s = ''{}'' then Some (JObj []) else None),
      insertConversionSchema = (\<lambda>d. True),
      fs_access = (\<lambda>p. p = ''uploads/f1''),
      path_extname = (\<lambda>f. ''.docx''),
      path_basename = (\<lambda>f ext. take (length f - length ext) f)\<rparr>"

definition example_upload :: upload where
  "example_upload =
     \<lparr>upload_originalname = ''report.docx'', upload_path = ''uploads/f1'',
      upload_size = 2048, upload_filename = ''f1'',
      upload_mimetype = ''application/msword''\<rparr>"

definition example_request :: request where
  "example_request =
     \<lparr>body_fromFormat = Some ''docx'', body_toFormat = Some ''pdf'',
      body_quality = Some ''low'', body_settings = None,
      req_file = Some example_upload\<rparr>"

definition example_batch_request :: batch_request where
  "example_batch_request =
     \<lparr>body_fromFormat = Some ''docx'', body_toFormat = Some ''pdf'',
      body_quality = Some ''low'', body_settings = None,
      req_files = Some [example_upload, example_upload, example_upload]\<rparr>"

definition example_conversion :: conversion where
  "example_conversion =
     \<lparr>conversion_id = ''u'', fromFormat = ''docx'', toFormat = ''pdf'',
      originalFilename = ''report.docx'', filePath = ''uploads/f1'', fileSize = 2048,
      status = ''pending'', downloadUrl = None, createdAt = Some 1000,
      completedAt = None,
      metadata = JObj [(''quality'', JStr ''low''), (''settings'', JObj [])]\<rparr>"

definition example_state :: state where
  "example_state =
     \<lparr>conversions = [(''u'', example_conversion)], uuid_calls = 1, date_calls = 1,
      timers = [(''u'', 1100, NewEndpoint)], console = []\<rparr>"

definition example_spec :: insert_conversion where
  "example_spec =
     conversion_data (Some ''docx'') (Some ''pdf'') example_upload
       [(''quality'', JStr ''low''), (''settings'', JObj []), (''isBatch'', JBool True)]"

section \<open>Facts about the storage and the deferred task\<close>

lemma getConversion_update:
  "getConversion cid (st\<lparr>conversions := AList.update k v (conversions st)\<rparr>) =
     (if cid = k then Some v else getConversion cid st)"
  by (simp add: getConversion_def update_conv')

lemma pick_case: "pick u old = (case u of Some v \<Rightarrow> v | None \<Rightarrow> old)"
  by (cases u) simp_all

lemma updateConversion_present:
  "getConversion cid st = Some existing \<Longrightarrow>
   updateConversion cid updates st =
     (Some (merge_updates existing updates),
      st\<lparr>conversions := AList.update cid (merge_updates existing updates) (conversions st)\<rparr>)"
  by (simp add: updateConversion_def getConversion_def Let_def)

lemma updateConversion_absent:
  "getConversion cid st = None \<Longrightarrow> updateConversion cid updates st = (None, st)"
  by (simp add: updateConversion_def getConversion_def)

lemma merge_failed: "merge_updates r failed_updates = r\<lparr>status := ''failed''\<rparr>"
  by (simp add: merge_updates_def failed_updates_def no_updates_def)

lemma merge_completed:
  "merge_updates r (completed_updates cid now) =
     r\<lparr>status := ''completed'', downloadUrl := Some (''/api/download/'' @ cid),
       completedAt := Some now\<rparr>"
  by (simp add: merge_updates_def completed_updates_def no_updates_def)

lemma getConversion_date_calls [simp]:
  "getConversion cid (st\<lparr>date_calls := n\<rparr>) = getConversion cid st"
  by (simp add: getConversion_def)

lemma getConversion_console [simp]:
  "getConversion cid (st\<lparr>console := c\<rparr>) = getConversion cid st"
  by (simp add: getConversion_def)

lemma getConversion_timers [simp]:
  "getConversion cid (st\<lparr>timers := t\<rparr>) = getConversion cid st"
  by (simp add: getConversion_def)

lemma getConversion_uuid_calls [simp]:
  "getConversion cid (st\<lparr>uuid_calls := n\<rparr>) = getConversion cid st"
  by (simp add: getConversion_def)

lemma conversion_task_present:
  assumes "getConversion cid st = Some r"
  shows "getConversion k (conversion_task e ep rejected cid st) =
     (if k = cid
      then Some (if rejected then r\<lparr>status := ''failed''\<rparr>
                 else r\<lparr>status := ''completed'',
                        downloadUrl := Some (''/api/download/'' @ cid),
                        completedAt := Some (clock e (date_calls st))\<rparr>)
      else getConversion k st)"
  using assms
  by (simp add: conversion_task_def Let_def updateConversion_def getConversion_def
      update_conv' merge_failed merge_completed)

lemma conversion_task_absent:
  assumes "getConversion cid st = None"
  shows "conversions (conversion_task e ep rejected cid st) = conversions st"
  using assms
  by (simp add: conversion_task_def Let_def updateConversion_absent)

section \<open>Identifiers and the invariant\<close>

lemma issued_mono: "issued e st k \<Longrightarrow> uuid_calls st \<le> uuid_calls st' \<Longrightarrow> issued e st' k"
  unfolding issued_def using less_le_trans by blast

lemma issued_fresh:
  "inj (randomUUID e) \<Longrightarrow> issued e st k \<Longrightarrow> k \<noteq> randomUUID e (uuid_calls st)"
  by (auto simp: issued_def dest: injD)

lemma issued_console [simp]: "issued e (st\<lparr>console := c\<rparr>) k = issued e st k"
  by (simp add: issued_def)

lemma issued_date_calls [simp]: "issued e (st\<lparr>date_calls := c\<rparr>) k = issued e st k"
  by (simp add: issued_def)

lemma issued_timers [simp]: "issued e (st\<lparr>timers := c\<rparr>) k = issued e st k"
  by (simp add: issued_def)

lemma issued_conversions [simp]: "issued e (st\<lparr>conversions := c\<rparr>) k = issued e st k"
  by (simp add: issued_def)

lemma ginvI:
  assumes "\<And>k r. map_of (conversions st) k = Some r \<Longrightarrow> issued e st k"
    and "\<And>k r. map_of (conversions st) k = Some r \<Longrightarrow>
           record_ok (k \<in> set (map fst (timers st) @ ps)) k r"
    and "\<And>k. k \<in> set (map fst (timers st) @ ps) \<Longrightarrow> issued e st k"
    and "distinct (map fst (timers st) @ ps)"
    and "distinct (map fst (conversions st))"
  shows "ginv e ps st"
  unfolding ginv_def using assms by blast

lemma ginv_stored_issued:
  "ginv e ps st \<Longrightarrow> map_of (conversions st) k = Some r \<Longrightarrow> issued e st k"
  unfolding ginv_def by blast

lemma ginv_record_ok:
  "ginv e ps st \<Longrightarrow> map_of (conversions st) k = Some r \<Longrightarrow>
     record_ok (k \<in> set (map fst (timers st) @ ps)) k r"
  unfolding ginv_def by blast

lemma ginv_waiting_issued:
  "ginv e ps st \<Longrightarrow> k \<in> set (map fst (timers st) @ ps) \<Longrightarrow> issued e st k"
  unfolding ginv_def by blast

lemma ginv_distinct_waiting: "ginv e ps st \<Longrightarrow> distinct (map fst (timers st) @ ps)"
  unfolding ginv_def by blast

lemma ginv_distinct_keys: "ginv e ps st \<Longrightarrow> distinct (map fst (conversions st))"
  unfolding ginv_def by blast

lemma ginv_initial: "ginv e [] initial_state"
  by (simp add: ginv_def initial_state_def)

lemma ginv_console [simp]: "ginv e ps (st\<lparr>console := c\<rparr>) = ginv e ps st"
  by (simp add: ginv_def)

lemma ginv_date_calls [simp]: "ginv e ps (st\<lparr>date_calls := c\<rparr>) = ginv e ps st"
  by (simp add: ginv_def)

lemma ginv_uuid_draw:
  assumes g: "ginv e ps st"
  shows "ginv e ps (st\<lparr>uuid_calls := Suc (uuid_calls st)\<rparr>)"
proof (rule ginvI)
  let ?st' = "st\<lparr>uuid_calls := Suc (uuid_calls st)\<rparr>"
  have m: "\<And>k. issued e st k \<Longrightarrow> issued e ?st' k"
    by (erule issued_mono) simp
  show "\<And>k r. map_of (conversions ?st') k = Some r \<Longrightarrow> issued e ?st' k"
    using ginv_stored_issued [OF g] m by simp
  show "\<And>k r. map_of (conversions ?st') k = Some r \<Longrightarrow>
      record_ok (k \<in> set (map fst (timers ?st') @ ps)) k r"
    using ginv_record_ok [OF g] by simp
  show "\<And>k. k \<in> set (map fst (timers ?st') @ ps) \<Longrightarrow> issued e ?st' k"
    using ginv_waiting_issued [OF g] m by simp
  show "distinct (map fst (timers ?st') @ ps)"
    using ginv_distinct_waiting [OF g] by simp
  show "distinct (map fst (conversions ?st'))"
    using ginv_distinct_keys [OF g] by simp
qed

lemma createConversion_state:
  "snd (createConversion e ins st) =
     st\<lparr>conversions :=
           AList.update (randomUUID e (uuid_calls st)) (fst (createConversion e ins st))
             (conversions st),
        uuid_calls := Suc (uuid_calls st),
        date_calls := Suc (date_calls st)\<rparr>"
  by (simp add: createConversion_def Let_def)

lemma createConversion_record:
  "conversion_id (fst (createConversion e ins st)) = randomUUID e (uuid_calls st)"
  "status (fst (createConversion e ins st)) = or_else (ins_status ins) ''pending'' (\<lambda>s. s)"
  "downloadUrl (fst (createConversion e ins st)) = or_else (ins_downloadUrl ins) None Some"
  "completedAt (fst (createConversion e ins st)) = None"
  by (simp_all add: createConversion_def Let_def)

lemma ginv_create:
  assumes i: "inj (randomUUID e)" and g: "ginv e ps st" and v: "valid_insert ins"
  shows "ginv e (ps @ [randomUUID e (uuid_calls st)]) (snd (createConversion e ins st))"
proof (rule ginvI)
  let ?k0 = "randomUUID e (uuid_calls st)"
  let ?c = "fst (createConversion e ins st)"
  let ?st' = "snd (createConversion e ins st)"
  have conv: "conversions ?st' = AList.update ?k0 ?c (conversions st)"
    and tm: "timers ?st' = timers st"
    and uc: "uuid_calls ?st' = Suc (uuid_calls st)"
    by (simp_all add: createConversion_state)
  have mono: "\<And>k. issued e st k \<Longrightarrow> issued e ?st' k"
    by (erule issued_mono) (simp add: uc)
  have new: "issued e ?st' ?k0"
    unfolding issued_def uc by (rule exI [of _ "uuid_calls st"]) simp
  have fresh: "?k0 \<notin> set (map fst (timers st) @ ps)"
  proof
    assume "?k0 \<in> set (map fst (timers st) @ ps)"
    then have "issued e st ?k0" by (rule ginv_waiting_issued [OF g])
    with issued_fresh [OF i] show False by blast
  qed
  have okc: "record_ok True ?k0 ?c"
    using v by (simp add: record_ok_def valid_insert_def createConversion_record)
  have look: "\<And>k. map_of (conversions ?st') k = (if k = ?k0 then Some ?c else map_of (conversions st) k)"
    by (simp add: conv update_conv')
  show "issued e ?st' k" if a: "map_of (conversions ?st') k = Some r" for k r
  proof (cases "k = ?k0")
    case True
    with new show ?thesis by simp
  next
    case False
    with a have "map_of (conversions st) k = Some r" by (simp add: look)
    then show ?thesis by (rule mono [OF ginv_stored_issued [OF g]])
  qed
  show "record_ok (k \<in> set (map fst (timers ?st') @ ps @ [?k0])) k r"
    if a: "map_of (conversions ?st') k = Some r" for k r
  proof (cases "k = ?k0")
    case True
    with a have "r = ?c" by (simp add: look)
    with True okc show ?thesis by simp
  next
    case False
    with a have "map_of (conversions st) k = Some r" by (simp add: look)
    then have "record_ok (k \<in> set (map fst (timers st) @ ps)) k r"
      by (rule ginv_record_ok [OF g])
    with False show ?thesis by (simp add: tm)
  qed
  show "issued e ?st' k" if a: "k \<in> set (map fst (timers ?st') @ ps @ [?k0])" for k
  proof (cases "k = ?k0")
    case True
    with new show ?thesis by simp
  next
    case False
    with a have "k \<in> set (map fst (timers st) @ ps)" by (simp add: tm)
    then show ?thesis by (rule mono [OF ginv_waiting_issued [OF g]])
  qed
  show "distinct (map fst (timers ?st') @ ps @ [?k0])"
    using ginv_distinct_waiting [OF g] fresh by (simp add: tm)
  show "distinct (map fst (conversions ?st'))"
    using ginv_distinct_keys [OF g] by (simp add: conv distinct_update)
qed

lemma ginv_arm:
  assumes "ginv e ps st" and "map fst ts = ps"
  shows "ginv e [] (st\<lparr>timers := timers st @ ts\<rparr>)"
  using assms by (simp add: ginv_def)

lemma ginv_delete:
  assumes g: "ginv e ps st"
  shows "ginv e ps (snd (deleteConversion k st))"
proof (rule ginvI)
  let ?st' = "snd (deleteConversion k st)"
  have conv: "conversions ?st' = AList.delete k (conversions st)"
    and tm: "timers ?st' = timers st"
    and uc: "uuid_calls ?st' = uuid_calls st"
    by (simp_all add: deleteConversion_def)
  have iss: "\<And>k'. issued e ?st' k' = issued e st k'"
    by (simp add: issued_def uc)
  have look: "\<And>k' r. map_of (conversions ?st') k' = Some r \<Longrightarrow> map_of (conversions st) k' = Some r"
    by (simp add: conv delete_conv' split: if_splits)
  show "\<And>k' r. map_of (conversions ?st') k' = Some r \<Longrightarrow> issued e ?st' k'"
    unfolding iss by (rule ginv_stored_issued [OF g look])
  show "\<And>k' r. map_of (conversions ?st') k' = Some r \<Longrightarrow>
      record_ok (k' \<in> set (map fst (timers ?st') @ ps)) k' r"
    unfolding tm by (rule ginv_record_ok [OF g look])
  show "\<And>k'. k' \<in> set (map fst (timers ?st') @ ps) \<Longrightarrow> issued e ?st' k'"
    unfolding iss tm by (rule ginv_waiting_issued [OF g])
  show "distinct (map fst (timers ?st') @ ps)"
    unfolding tm by (rule ginv_distinct_waiting [OF g])
  show "distinct (map fst (conversions ?st'))"
    unfolding conv by (rule distinct_delete [OF ginv_distinct_keys [OF g]])
qed

section \<open>Timers\<close>

lemma remove_timer_keys:
  "distinct (map fst ts) \<Longrightarrow> set (map fst (remove_timer c ts)) = set (map fst ts) - {c}"
proof (induction ts)
  case Nil
  then show ?case by simp
next
  case (Cons t ts)
  show ?case
  proof (cases "fst t = c")
    case True
    with Cons.prems have "c \<notin> set (map fst ts)" by simp
    with True show ?thesis by simp
  next
    case False
    from Cons have "set (map fst (remove_timer c ts)) = set (map fst ts) - {c}" by simp
    with False show ?thesis by auto
  qed
qed

lemma remove_timer_subset: "set (remove_timer c ts) \<subseteq> set ts"
  by (induction ts) auto

lemma remove_timer_distinct:
  "distinct (map fst ts) \<Longrightarrow> distinct (map fst (remove_timer c ts))"
proof (induction ts)
  case Nil
  then show ?case by simp
next
  case (Cons t ts)
  have "fst t \<notin> fst ` set (remove_timer c ts)" if "fst t \<notin> fst ` set ts"
    using that remove_timer_subset [of c ts] by blast
  with Cons show ?case by auto
qed

lemma conversion_task_frame:
  "timers (conversion_task e ep rej c st) = timers st"
  "uuid_calls (conversion_task e ep rej c st) = uuid_calls st"
  by (simp_all add: conversion_task_def updateConversion_def Let_def split: option.splits)

lemma conversion_task_lookup:
  "map_of (conversions (conversion_task e ep rej c st)) k =
     (case map_of (conversions st) c of
        None \<Rightarrow> map_of (conversions st) k
      | Some r \<Rightarrow>
          if k = c
          then Some (if rej then r\<lparr>status := ''failed''\<rparr>
                     else r\<lparr>status := ''completed'',
                            downloadUrl := Some (''/api/download/'' @ c),
                            completedAt := Some (clock e (date_calls st))\<rparr>)
          else map_of (conversions st) k)"
proof (cases "map_of (conversions st) c")
  case None
  then have "getConversion c st = None" by (simp add: getConversion_def)
  from conversion_task_absent [OF this] None show ?thesis by simp
next
  case (Some r)
  then have "getConversion c st = Some r" by (simp add: getConversion_def)
  from conversion_task_present [OF this, of k e ep rej] Some show ?thesis
    by (simp add: getConversion_def)
qed

lemma conversion_task_distinct:
  "distinct (map fst (conversions st)) \<Longrightarrow>
   distinct (map fst (conversions (conversion_task e ep rej c st)))"
  by (simp add: conversion_task_def updateConversion_def Let_def distinct_update
      split: option.splits)

lemma record_ok_finished:
  assumes "record_ok True c r"
  shows "record_ok False c
     (if rej then r\<lparr>status := ''failed''\<rparr>
      else r\<lparr>status := ''completed'', downloadUrl := Some u, completedAt := Some t\<rparr>)"
  using assms by (simp add: record_ok_def)

lemma timer_fires_unregistered:
  "c \<notin> set (map fst (timers st)) \<Longrightarrow> timer_fires e c rej st = st"
proof -
  assume "c \<notin> set (map fst (timers st))"
  then have "map_of (timers st) c = None" by (simp add: map_of_eq_None_iff)
  then show ?thesis by (simp add: timer_fires_def)
qed

lemma timer_fires_registered:
  assumes "c \<in> set (map fst (timers st))"
  shows "\<exists>ep. timer_fires e c rej st =
     conversion_task e ep rej c (st\<lparr>timers := remove_timer c (timers st)\<rparr>)"
proof -
  from assms have "map_of (timers st) c \<noteq> None" by (simp add: map_of_eq_None_iff)
  then obtain d ep where "map_of (timers st) c = Some (d, ep)" by auto
  then have "timer_fires e c rej st =
     conversion_task e ep rej c (st\<lparr>timers := remove_timer c (timers st)\<rparr>)"
    by (simp add: timer_fires_def)
  then show ?thesis by blast
qed

lemma ginv_timer_fires:
  assumes g: "ginv e [] st"
  shows "ginv e [] (timer_fires e c rej st)"
proof (cases "c \<in> set (map fst (timers st))")
  case False
  with g show ?thesis by (simp add: timer_fires_unregistered)
next
  case True
  let ?st1 = "st\<lparr>timers := remove_timer c (timers st)\<rparr>"
  from timer_fires_registered [OF True, of e rej]
  obtain ep where eq0: "timer_fires e c rej st = conversion_task e ep rej c ?st1" by blast
  let ?st' = "conversion_task e ep rej c ?st1"
  have eq: "timer_fires e c rej st = ?st'"
    by (rule eq0)
  have d: "distinct (map fst (timers st))"
    using ginv_distinct_waiting [OF g] by simp
  have tm: "timers ?st' = remove_timer c (timers st)"
    by (simp add: conversion_task_frame)
  have keys: "set (map fst (timers ?st')) = set (map fst (timers st)) - {c}"
    unfolding tm by (rule remove_timer_keys [OF d])
  have iss: "\<And>k. issued e ?st' k = issued e st k"
    by (simp add: issued_def conversion_task_frame)
  have look: "\<And>k. map_of (conversions ?st') k =
     (case map_of (conversions st) c of
        None \<Rightarrow> map_of (conversions st) k
      | Some r \<Rightarrow>
          if k = c
          then Some (if rej then r\<lparr>status := ''failed''\<rparr>
                     else r\<lparr>status := ''completed'',
                            downloadUrl := Some (''/api/download/'' @ c),
                            completedAt := Some (clock e (date_calls st))\<rparr>)
          else map_of (conversions st) k)"
    by (simp add: conversion_task_lookup split: option.splits)
  have stored: "map_of (conversions st) k \<noteq> None" if "map_of (conversions ?st') k = Some r" for k r
    using that unfolding look by (auto split: option.splits if_splits)
  have "ginv e [] ?st'"
  proof (rule ginvI)
    show "issued e ?st' k" if a: "map_of (conversions ?st') k = Some r" for k r
    proof -
      from stored [OF a] obtain r0 where "map_of (conversions st) k = Some r0" by blast
      then show ?thesis unfolding iss by (rule ginv_stored_issued [OF g])
    qed
    show "record_ok (k \<in> set (map fst (timers ?st') @ [])) k r"
      if a: "map_of (conversions ?st') k = Some r" for k r
    proof (cases "k = c")
      case kc: True
      from stored [OF a] kc obtain r0 where r0: "map_of (conversions st) c = Some r0" by blast
      have "record_ok (c \<in> set (map fst (timers st) @ [])) c r0"
        by (rule ginv_record_ok [OF g r0])
      with True have w: "record_ok True c r0" by simp
      from a kc r0 have r: "r = (if rej then r0\<lparr>status := ''failed''\<rparr>
                     else r0\<lparr>status := ''completed'',
                            downloadUrl := Some (''/api/download/'' @ c),
                            completedAt := Some (clock e (date_calls st))\<rparr>)"
        by (simp add: look)
      have "c \<notin> set (map fst (timers ?st'))" unfolding keys by simp
      with kc record_ok_finished [OF w] show ?thesis
        unfolding r by simp
    next
      case kc: False
      with a have b: "map_of (conversions st) k = Some r"
        by (simp add: look split: option.splits)
      have "record_ok (k \<in> set (map fst (timers st) @ [])) k r"
        by (rule ginv_record_ok [OF g b])
      moreover have "(k \<in> set (map fst (timers ?st'))) = (k \<in> set (map fst (timers st)))"
        unfolding keys using kc by simp
      ultimately show ?thesis by simp
    qed
    show "issued e ?st' k" if a: "k \<in> set (map fst (timers ?st') @ [])" for k
    proof -
      from a have "k \<in> set (map fst (timers st) @ [])" using keys by simp
      then show ?thesis unfolding iss by (rule ginv_waiting_issued [OF g])
    qed
    show "distinct (map fst (timers ?st') @ [])"
      unfolding tm using remove_timer_distinct [OF d] by simp
    show "distinct (map fst (conversions ?st'))"
      using conversion_task_distinct [of ?st1 e ep rej c] ginv_distinct_keys [OF g] by simp
  qed
  with eq show ?thesis by simp
qed

section \<open>The invariant along a run\<close>

lemma createBatch_loop_step:
  "createBatch_loop e b n (conv # rest) results st =
     createBatch_loop e b n rest
       (results @ [fst (createConversion e
            (conv\<lparr>ins_metadata := Some (batch_metadata (ins_metadata conv) b n)\<rparr>) st)])
       (snd (createConversion e
            (conv\<lparr>ins_metadata := Some (batch_metadata (ins_metadata conv) b n)\<rparr>) st))"
  by (simp add: case_prod_beta)

lemma valid_insert_metadata [simp]:
  "valid_insert (ins\<lparr>ins_metadata := m\<rparr>) = valid_insert ins"
  by (simp add: valid_insert_def)

lemma valid_insert_conversion_data [simp]: "valid_insert (conversion_data f t file meta)"
  by (simp add: valid_insert_def conversion_data_def)

lemma createConversion_timers [simp]:
  "timers (snd (createConversion e ins st)) = timers st"
  by (simp add: createConversion_state)

lemma ginv_loop:
  assumes i: "inj (randomUUID e)"
  shows "ginv e (map conversion_id results) st \<Longrightarrow> \<forall>c \<in> set specs. valid_insert c \<Longrightarrow>
     ginv e (map conversion_id (fst (createBatch_loop e b n specs results st)))
       (snd (createBatch_loop e b n specs results st))
     \<and> timers (snd (createBatch_loop e b n specs results st)) = timers st"
proof (induction specs arbitrary: results st)
  case Nil
  then show ?case by simp
next
  case (Cons conv rest)
  let ?ins = "conv\<lparr>ins_metadata := Some (batch_metadata (ins_metadata conv) b n)\<rparr>"
  let ?c = "fst (createConversion e ?ins st)"
  let ?st' = "snd (createConversion e ?ins st)"
  have v: "valid_insert ?ins" using Cons.prems(2) by simp
  have "ginv e (map conversion_id results @ [randomUUID e (uuid_calls st)]) ?st'"
    by (rule ginv_create [OF i Cons.prems(1) v])
  then have g: "ginv e (map conversion_id (results @ [?c])) ?st'"
    by (simp add: createConversion_record)
  have r: "\<forall>c \<in> set rest. valid_insert c" using Cons.prems(2) by simp
  from Cons.IH [OF g r] show ?case
    unfolding createBatch_loop_step by simp
qed

lemma parse_settings_state: "\<exists>cl. snd (parse_settings e s st) = st\<lparr>console := cl\<rparr>"
proof (cases s)
  case None
  have "st = st\<lparr>console := console st\<rparr>" by simp
  with None show ?thesis unfolding parse_settings_def by (simp, metis)
next
  case (Some str)
  show ?thesis
  proof (cases "str = [] \<or> JSON_parse e str \<noteq> None")
    case True
    have "st = st\<lparr>console := console st\<rparr>" by simp
    with True Some have "snd (parse_settings e s st) = st\<lparr>console := console st\<rparr>"
      unfolding parse_settings_def by auto
    then show ?thesis by blast
  next
    case False
    with Some show ?thesis unfolding parse_settings_def by auto
  qed
qed

lemma ginv_parse_settings [simp]:
  "ginv e ps (snd (parse_settings e s st)) = ginv e ps st"
proof -
  from parse_settings_state obtain cl where "snd (parse_settings e s st) = st\<lparr>console := cl\<rparr>"
    by blast
  then show ?thesis by simp
qed

lemma ginv_submit:
  assumes i: "inj (randomUUID e)" and g: "ginv e [] st" and v: "valid_insert ins"
  shows "ginv e []
     ((snd (createConversion e ins st))
        \<lparr>timers := timers st @ [(conversion_id (fst (createConversion e ins st)), d)]\<rparr>)"
proof -
  have "ginv e ([] @ [randomUUID e (uuid_calls st)]) (snd (createConversion e ins st))"
    by (rule ginv_create [OF i g v])
  then have "ginv e [randomUUID e (uuid_calls st)] (snd (createConversion e ins st))" by simp
  from ginv_arm [OF this, of "[(conversion_id (fst (createConversion e ins st)), d)]"]
  show ?thesis by (simp add: createConversion_record)
qed

lemma ginv_post_conversions:
  assumes i: "inj (randomUUID e)" and g: "ginv e [] st"
  shows "ginv e [] (snd (post_conversions e req st))"
  using g ginv_submit [OF i]
  by (simp add: post_conversions_def Let_def case_prod_beta split: option.splits)

lemma ginv_post_convert:
  assumes i: "inj (randomUUID e)" and g: "ginv e [] st"
  shows "ginv e [] (snd (post_convert e req st))"
  using g ginv_submit [OF i]
  by (simp add: post_convert_def Let_def case_prod_beta split: option.splits)

lemma batch_timers_keys: "map fst (batch_timers q convs) = map conversion_id convs"
proof -
  have "map conversion_id convs = map conversion_id (map snd (enumerate 0 convs))"
    by (simp only: map_snd_enumerate)
  also have "\<dots> = map (\<lambda>p. conversion_id (snd p)) (enumerate 0 convs)"
    by (simp only: map_map comp_def)
  also have "\<dots> = map fst (batch_timers q convs)"
    unfolding batch_timers_def by (simp add: case_prod_beta comp_def)
  finally show ?thesis by simp
qed

lemma ginv_createBatch:
  assumes i: "inj (randomUUID e)" and g: "ginv e [] st"
    and v: "\<forall>c \<in> set specs. valid_insert c"
    and c: "fst (createBatchConversion e specs st) = convs"
  shows "ginv e []
     ((snd (createBatchConversion e specs st))
        \<lparr>timers := timers (snd (createBatchConversion e specs st))
                    @ batch_timers q convs\<rparr>)"
proof -
  let ?st0 = "st\<lparr>uuid_calls := Suc (uuid_calls st)\<rparr>"
  have "ginv e (map conversion_id []) ?st0"
    using ginv_uuid_draw [OF g] by simp
  from ginv_loop [OF i this v, of "randomUUID e (uuid_calls st)" "length specs"]
  have "ginv e (map conversion_id (fst (createBatchConversion e specs st)))
      (snd (createBatchConversion e specs st))"
    by (simp add: createBatchConversion_def Let_def)
  from ginv_arm [OF this batch_timers_keys] c show ?thesis by simp
qed

lemma ginv_post_conversions_batch:
  assumes i: "inj (randomUUID e)" and g: "ginv e [] st"
  shows "ginv e [] (snd (post_conversions_batch e req st))"
proof -
  have v: "\<And>f t m files. \<forall>c \<in> set (map (\<lambda>file. conversion_data f t file m) files). valid_insert c"
    by simp
  show ?thesis
    using g ginv_createBatch [OF i _ v]
    by (simp add: post_conversions_batch_def Let_def case_prod_beta
        split: option.splits list.splits)
qed

lemma ginv_step:
  assumes i: "inj (randomUUID e)" and g: "ginv e [] st"
  shows "ginv e [] (step e ev st)"
  by (cases ev)
     (simp_all add: ginv_post_conversions [OF i g] ginv_post_convert [OF i g]
        ginv_post_conversions_batch [OF i g] ginv_timer_fires [OF g] ginv_delete [OF g])

lemma ginv_run:
  assumes i: "inj (randomUUID e)"
  shows "ginv e [] st \<Longrightarrow> ginv e [] (run e evs st)"
  unfolding run_def
  by (induction evs arbitrary: st) (simp_all add: ginv_step [OF i])

section \<open>Accepted submissions\<close>

lemma createConversion_stored:
  "getConversion (conversion_id (fst (createConversion e ins st))) (snd (createConversion e ins st))
     = Some (fst (createConversion e ins st))"
  by (simp add: createConversion_def Let_def getConversion_def update_conv')

lemma createConversion_metadata:
  "metadata (fst (createConversion e ins st)) =
     (case ins_metadata ins of None \<Rightarrow> JNull | Some m \<Rightarrow> if truthy m then m else JNull)"
  by (simp add: createConversion_def Let_def)

lemma post_conversions_accepted:
  assumes fl: "req_file req = Some file"
    and f: "body_fromFormat req = Some f" "f \<noteq> []"
    and t: "body_toFormat req = Some t" "t \<noteq> []"
    and ok: "insertConversionSchema e
       (conversion_data (Some f) (Some t) file
          [(''quality'', quality_or_high (body_quality req)),
           (''settings'', fst (parse_settings e (body_settings req) st))])"
  shows "post_conversions e req st =
     (let st1 = snd (parse_settings e (body_settings req) st);
          data = conversion_data (Some f) (Some t) file
            [(''quality'', quality_or_high (body_quality req)),
             (''settings'', fst (parse_settings e (body_settings req) st))];
          job = fst (createConversion e data st1);
          st2 = snd (createConversion e data st1)
      in (Json 201 (ConversionBody job),
          st2\<lparr>timers := timers st2 @
                 [(conversion_id job, 100 + processingTime (body_quality req), NewEndpoint)]\<rparr>))"
  using assms
  by (simp add: post_conversions_def missing_format_def Let_def case_prod_beta)

section \<open>Records that a step leaves alone\<close>

lemma parse_settings_fields [simp]:
  "conversions (snd (parse_settings e s st)) = conversions st"
  "uuid_calls (snd (parse_settings e s st)) = uuid_calls st"
  "timers (snd (parse_settings e s st)) = timers st"
proof -
  from parse_settings_state obtain cl where c: "snd (parse_settings e s st) = st\<lparr>console := cl\<rparr>"
    by blast
  show "conversions (snd (parse_settings e s st)) = conversions st"
    "uuid_calls (snd (parse_settings e s st)) = uuid_calls st"
    "timers (snd (parse_settings e s st)) = timers st"
    unfolding c by simp_all
qed

lemma getConversion_parse_settings [simp]:
  "getConversion k (snd (parse_settings e s st)) = getConversion k st"
  by (simp add: getConversion_def)

lemma issued_parse_settings [simp]:
  "issued e (snd (parse_settings e' s st)) k = issued e st k"
  by (simp add: issued_def)

lemma createConversion_uuid_calls [simp]:
  "uuid_calls (snd (createConversion e ins st)) = Suc (uuid_calls st)"
  by (simp add: createConversion_state)












lemma timer_fires_lookup:
  "getConversion k (timer_fires e c rej st) =
     (if c \<in> set (map fst (timers st)) \<and> k = c
      then (case getConversion c st of
              None \<Rightarrow> None
            | Some r \<Rightarrow>
                Some (if rej then r\<lparr>status := ''failed''\<rparr>
                      else r\<lparr>status := ''completed'',
                             downloadUrl := Some (''/api/download/'' @ c),
                             completedAt := Some (clock e (date_calls st))\<rparr>))
      else getConversion k st)"
proof (cases "c \<in> set (map fst (timers st))")
  case False
  then show ?thesis by (simp add: timer_fires_unregistered)
next
  case True
  from timer_fires_registered [OF True, of e rej] True show ?thesis
    by (auto simp: getConversion_def conversion_task_lookup split: option.splits)
qed






lemma ginv_getConversion:
  assumes g: "ginv e [] st" and s: "getConversion k st = Some r"
  shows "issued e st k" and "record_ok (k \<in> set (map fst (timers st))) k r"
proof -
  from s have m: "map_of (conversions st) k = Some r" by (simp add: getConversion_def)
  show "issued e st k" by (rule ginv_stored_issued [OF g m])
  from ginv_record_ok [OF g m] show "record_ok (k \<in> set (map fst (timers st))) k r" by simp
qed



section \<open>The loop of createBatchConversion\<close>

declare createBatch_loop.simps(2) [simp del]

lemma createBatch_loop_acc:
  "fst (createBatch_loop e b n specs results st) = results @ fst (createBatch_loop e b n specs [] st)
   \<and> snd (createBatch_loop e b n specs results st) = snd (createBatch_loop e b n specs [] st)"
proof (induction specs arbitrary: results st)
  case Nil
  then show ?case by simp
next
  case (Cons conv rest)
  let ?ins = "conv\<lparr>ins_metadata := Some (batch_metadata (ins_metadata conv) b n)\<rparr>"
  let ?j = "fst (createConversion e ?ins st)"
  let ?st' = "snd (createConversion e ?ins st)"
  from Cons.IH [of "results @ [?j]" ?st'] Cons.IH [of "[] @ [?j]" ?st']
  show ?case unfolding createBatch_loop_step by simp
qed

lemma createBatch_loop_Cons:
  "fst (createBatch_loop e b n (conv # rest) [] st) =
     fst (createConversion e
            (conv\<lparr>ins_metadata := Some (batch_metadata (ins_metadata conv) b n)\<rparr>) st)
     # fst (createBatch_loop e b n rest []
             (snd (createConversion e
                (conv\<lparr>ins_metadata := Some (batch_metadata (ins_metadata conv) b n)\<rparr>) st)))"
  "snd (createBatch_loop e b n (conv # rest) [] st) =
     snd (createBatch_loop e b n rest []
             (snd (createConversion e
                (conv\<lparr>ins_metadata := Some (batch_metadata (ins_metadata conv) b n)\<rparr>) st)))"
proof -
  let ?ins = "conv\<lparr>ins_metadata := Some (batch_metadata (ins_metadata conv) b n)\<rparr>"
  let ?j = "fst (createConversion e ?ins st)"
  let ?st' = "snd (createConversion e ?ins st)"
  from createBatch_loop_acc [of e b n rest "[] @ [?j]" ?st']
  show "fst (createBatch_loop e b n (conv # rest) [] st) =
      ?j # fst (createBatch_loop e b n rest [] ?st')"
    and "snd (createBatch_loop e b n (conv # rest) [] st) =
      snd (createBatch_loop e b n rest [] ?st')"
    unfolding createBatch_loop_step by simp_all
qed

lemma createBatch_loop_length:
  "length (fst (createBatch_loop e b n specs [] st)) = length specs"
  by (induction specs arbitrary: st) (simp_all add: createBatch_loop_Cons)

lemma createConversion_fst_cong:
  "uuid_calls s = uuid_calls s' \<Longrightarrow> date_calls s = date_calls s' \<Longrightarrow>
   fst (createConversion e ins s) = fst (createConversion e ins s')"
  by (simp add: createConversion_def Let_def)

lemma createConversion_date_calls [simp]:
  "date_calls (snd (createConversion e ins st)) = Suc (date_calls st)"
  by (simp add: createConversion_state)

lemma createBatch_loop_nth:
  "i < length specs \<Longrightarrow>
   fst (createBatch_loop e b n specs [] st) ! i =
     fst (createConversion e
           ((specs ! i)\<lparr>ins_metadata := Some (batch_metadata (ins_metadata (specs ! i)) b n)\<rparr>)
           (st\<lparr>uuid_calls := uuid_calls st + i, date_calls := date_calls st + i\<rparr>))"
proof (induction specs arbitrary: st i)
  case Nil
  then show ?case by simp
next
  case (Cons conv rest)
  let ?ins = "conv\<lparr>ins_metadata := Some (batch_metadata (ins_metadata conv) b n)\<rparr>"
  let ?st' = "snd (createConversion e ?ins st)"
  show ?case
  proof (cases i)
    case 0
    have "fst (createConversion e ?ins st) =
        fst (createConversion e ?ins (st\<lparr>uuid_calls := uuid_calls st, date_calls := date_calls st\<rparr>))"
      by (rule createConversion_fst_cong) simp_all
    with 0 show ?thesis by (simp add: createBatch_loop_Cons)
  next
    case (Suc i')
    with Cons.prems have lt: "i' < length rest" by simp
    let ?ins' = "(rest ! i')\<lparr>ins_metadata := Some (batch_metadata (ins_metadata (rest ! i')) b n)\<rparr>"
    have "fst (createConversion e ?ins'
           (?st'\<lparr>uuid_calls := uuid_calls ?st' + i', date_calls := date_calls ?st' + i'\<rparr>))
       = fst (createConversion e ?ins'
           (st\<lparr>uuid_calls := uuid_calls st + Suc i', date_calls := date_calls st + Suc i'\<rparr>))"
      by (rule createConversion_fst_cong) simp_all
    with Cons.IH [OF lt, of ?st'] Suc show ?thesis
      by (simp add: createBatch_loop_Cons)
  qed
qed

lemma update_fresh: "k \<notin> fst ` set al \<Longrightarrow> AList.update k v al = al @ [(k, v)]"
  by (induction al) auto

lemma createBatch_loop_conversions:
  assumes i: "inj (randomUUID e)"
  shows "\<forall>i < length specs. randomUUID e (uuid_calls st + i) \<notin> fst ` set (conversions st) \<Longrightarrow>
     conversions (snd (createBatch_loop e b n specs [] st)) =
       conversions st @ map (\<lambda>j. (conversion_id j, j)) (fst (createBatch_loop e b n specs [] st))"
proof (induction specs arbitrary: st)
  case Nil
  then show ?case by simp
next
  case (Cons conv rest)
  let ?ins = "conv\<lparr>ins_metadata := Some (batch_metadata (ins_metadata conv) b n)\<rparr>"
  let ?j = "fst (createConversion e ?ins st)"
  let ?st' = "snd (createConversion e ?ins st)"
  let ?k0 = "randomUUID e (uuid_calls st)"
  from Cons.prems have "?k0 \<notin> fst ` set (conversions st)" by force
  then have c: "conversions ?st' = conversions st @ [(?k0, ?j)]"
    by (simp add: createConversion_state update_fresh)
  have f: "\<forall>i < length rest. randomUUID e (uuid_calls ?st' + i) \<notin> fst ` set (conversions ?st')"
  proof (intro allI impI)
    fix i assume "i < length rest"
    then have "Suc i < length (conv # rest)" by simp
    with Cons.prems have "randomUUID e (uuid_calls st + Suc i) \<notin> fst ` set (conversions st)"
      by blast
    moreover have "randomUUID e (uuid_calls st + Suc i) \<noteq> ?k0"
      using i by (auto dest: injD)
    ultimately show "randomUUID e (uuid_calls ?st' + i) \<notin> fst ` set (conversions ?st')"
      by (simp add: c)
  qed
  from Cons.IH [OF f] show ?case
    by (simp add: createBatch_loop_Cons c createConversion_record)
qed

section \<open>Keys that a spread copies\<close>

declare string_of_nat.simps [simp del]

lemma digit_char_code: "d < 10 \<Longrightarrow> of_char (digit_char d) = 48 + d"
  by (simp add: digit_char_def)

lemma digit_char_inj: "a < 10 \<Longrightarrow> b < 10 \<Longrightarrow> digit_char a = digit_char b \<Longrightarrow> a = b"
proof -
  assume a: "a < 10" and b: "b < 10" and e: "digit_char a = digit_char b"
  from e have "(of_char (digit_char a) :: nat) = of_char (digit_char b)" by simp
  with a b show "a = b" by (simp add: digit_char_code)
qed

lemma string_of_nat_nonempty: "string_of_nat n \<noteq> []"
  by (subst string_of_nat.simps) simp

lemma string_of_nat_last: "last (string_of_nat n) = digit_char (n mod 10)"
  by (subst string_of_nat.simps) simp

lemma string_of_nat_butlast:
  "butlast (string_of_nat n) = (if n < 10 then [] else string_of_nat (n div 10))"
  by (subst string_of_nat.simps) simp

lemma string_of_nat_inj: "string_of_nat n = string_of_nat m \<Longrightarrow> n = m"
proof (induction n arbitrary: m rule: string_of_nat.induct)
  case (1 n)
  from "1.prems" have "last (string_of_nat n) = last (string_of_nat m)" by simp
  then have "digit_char (n mod 10) = digit_char (m mod 10)" by (simp add: string_of_nat_last)
  then have r: "n mod 10 = m mod 10" by (rule digit_char_inj [rotated 2]) simp_all
  from "1.prems" have b: "butlast (string_of_nat n) = butlast (string_of_nat m)" by simp
  show ?case
  proof (cases "n < 10")
    case True
    with b have "m < 10"
      using string_of_nat_nonempty [of "m div 10"]
      by (auto simp: string_of_nat_butlast split: if_splits)
    with True r show ?thesis by simp
  next
    case False
    with b have m: "\<not> m < 10" and q: "string_of_nat (n div 10) = string_of_nat (m div 10)"
      using string_of_nat_nonempty [of "n div 10"]
      by (auto simp: string_of_nat_butlast split: if_splits)
    from "1.IH" [OF False q] have "n div 10 = m div 10" .
    with r show ?thesis by (metis div_mult_mod_eq)
  qed
qed

lemma string_of_nat_not_batch_key:
  "string_of_nat j \<noteq> ''batchId''" "string_of_nat j \<noteq> ''batchSize''"
proof -
  have c: "(of_char (last (string_of_nat j)) :: nat) < 58"
    by (simp add: string_of_nat_last digit_char_code)
  show "string_of_nat j \<noteq> ''batchId''"
  proof
    assume "string_of_nat j = ''batchId''"
    then have "last (string_of_nat j) = CHR ''d''" by simp
    with c show False by simp
  qed
  show "string_of_nat j \<noteq> ''batchSize''"
  proof
    assume "string_of_nat j = ''batchSize''"
    then have "last (string_of_nat j) = CHR ''e''" by simp
    with c show False by simp
  qed
qed

lemma index_keys_lookup:
  assumes "j < length ys"
  shows "map_of (zip (map string_of_nat [0..<length ys]) ys) (string_of_nat j) = Some (ys ! j)"
proof -
  have d: "distinct (map string_of_nat [0..<length ys])"
    by (simp add: distinct_map inj_on_def) (blast dest: string_of_nat_inj)
  have l: "length (map string_of_nat [0..<length ys]) = length ys" by simp
  from map_of_zip_nth [OF l d assms] assms show ?thesis by simp
qed

lemma spread_array: "j < length xs \<Longrightarrow> map_of (spread (JArr xs)) (string_of_nat j) = Some (xs ! j)"
  by (simp add: index_keys_lookup)

lemma spread_string:
  "j < length s \<Longrightarrow> map_of (spread (JStr s)) (string_of_nat j) = Some (JStr [s ! j])"
  using index_keys_lookup [of j "map (\<lambda>c. JStr [c]) s"] by simp

lemma spread_other:
  "(\<forall>kvs. m \<noteq> JObj kvs) \<Longrightarrow> (\<forall>xs. m \<noteq> JArr xs) \<Longrightarrow> (\<forall>s. m \<noteq> JStr s) \<Longrightarrow> spread m = []"
  by (cases m) simp_all

lemma batch_metadata_lookup:
  "get_prop (batch_metadata m b n) k =
     (if k = ''batchSize'' then Some (JNum (int n))
      else if k = ''batchId'' then Some (JStr b)
      else (case m of None \<Rightarrow> None | Some v \<Rightarrow> if truthy v then map_of (spread v) k else None))"
  by (simp add: batch_metadata_def update_conv' split: option.splits)

lemma batch_metadata_truthy [simp]: "truthy (batch_metadata m b n)"
  by (simp add: batch_metadata_def)

lemma in_batch_batch_metadata:
  "metadata j = batch_metadata m b n \<Longrightarrow> in_batch b' j = (b' = b)"
  by (auto simp: in_batch_def batch_metadata_def update_conv')

lemma map_of_appended:
  assumes "k \<notin> fst ` set al" and "distinct (map fst news)" and "(k, v) \<in> set news"
  shows "map_of (al @ news) k = Some v"
proof -
  from assms(2,3) have "map_of news k = Some v" by simp
  moreover from assms(1) have "map_of al k = None" by (simp add: map_of_eq_None_iff)
  ultimately show ?thesis by (simp add: map_add_def)
qed

section \<open>Batch ids along a run\<close>

lemma binv_initial: "binv e initial_state"
  by (simp add: binv_def initial_state_def)

lemma binv_console [simp]: "binv e (st\<lparr>console := c\<rparr>) = binv e st"
  by (simp add: binv_def)

lemma binv_timers [simp]: "binv e (st\<lparr>timers := c\<rparr>) = binv e st"
  by (simp add: binv_def)

lemma binv_parse_settings [simp]: "binv e (snd (parse_settings e' s st)) = binv e st"
  by (simp add: binv_def)

lemma binv_uuid_draw: "binv e st \<Longrightarrow> binv e (st\<lparr>uuid_calls := Suc (uuid_calls st)\<rparr>)"
proof -
  assume b: "binv e st"
  have m: "\<And>k. issued e st k \<Longrightarrow> issued e (st\<lparr>uuid_calls := Suc (uuid_calls st)\<rparr>) k"
    by (erule issued_mono) simp
  from b show ?thesis unfolding binv_def using m by (simp; blast)
qed

lemma binv_create:
  assumes b: "binv e st"
    and n: "\<And>b. in_batch b (fst (createConversion e ins st)) \<Longrightarrow>
               issued e (snd (createConversion e ins st)) b"
  shows "binv e (snd (createConversion e ins st))"
  unfolding binv_def
proof (intro allI impI)
  let ?st' = "snd (createConversion e ins st)"
  fix k r c
  assume a: "map_of (conversions ?st') k = Some r" and i: "in_batch c r"
  have look: "map_of (conversions ?st') k =
      (if k = randomUUID e (uuid_calls st) then Some (fst (createConversion e ins st))
       else map_of (conversions st) k)"
    by (simp add: createConversion_state update_conv')
  show "issued e ?st' c"
  proof (cases "k = randomUUID e (uuid_calls st)")
    case True
    with a look have "r = fst (createConversion e ins st)" by simp
    with i n show ?thesis by simp
  next
    case False
    with a look have "map_of (conversions st) k = Some r" by simp
    with b i have "issued e st c" unfolding binv_def by blast
    then show ?thesis by (rule issued_mono) simp
  qed
qed

lemma in_batch_conversion_data:
  "in_batch b (fst (createConversion e (conversion_data f t file meta) st))
     = (map_of meta ''batchId'' = Some (JStr b))"
  by (simp add: in_batch_def createConversion_metadata conversion_data_def)

lemma binv_submit:
  assumes b: "binv e st" and m: "map_of meta ''batchId'' = None"
  shows "binv e (snd (createConversion e (conversion_data f t file meta) st))"
  by (rule binv_create [OF b]) (simp add: in_batch_conversion_data m)

lemma binv_post_conversions: "binv e st \<Longrightarrow> binv e (snd (post_conversions e req st))"
  by (simp add: post_conversions_def Let_def case_prod_beta binv_submit split: option.splits)

lemma binv_post_convert: "binv e st \<Longrightarrow> binv e (snd (post_convert e req st))"
  by (simp add: post_convert_def Let_def case_prod_beta binv_submit split: option.splits)

lemma binv_loop:
  "binv e st \<Longrightarrow> issued e st b \<Longrightarrow> binv e (snd (createBatch_loop e b n specs results st))"
proof (induction specs arbitrary: results st)
  case Nil
  then show ?case by simp
next
  case (Cons conv rest)
  let ?ins = "conv\<lparr>ins_metadata := Some (batch_metadata (ins_metadata conv) b n)\<rparr>"
  let ?st' = "snd (createConversion e ?ins st)"
  have i: "issued e ?st' b"
    using Cons.prems(2) by (rule issued_mono) simp
  have m: "metadata (fst (createConversion e ?ins st)) = batch_metadata (ins_metadata conv) b n"
    by (simp add: createConversion_metadata)
  have "binv e ?st'"
  proof (rule binv_create [OF Cons.prems(1)])
    fix c assume "in_batch c (fst (createConversion e ?ins st))"
    with in_batch_batch_metadata [OF m, of c] have "c = b" by simp
    with i show "issued e ?st' c" by simp
  qed
  from Cons.IH [OF this i] show ?case unfolding createBatch_loop_step .
qed

lemma binv_createBatch: "binv e st \<Longrightarrow> binv e (snd (createBatchConversion e specs st))"
proof -
  assume b: "binv e st"
  let ?st0 = "st\<lparr>uuid_calls := Suc (uuid_calls st)\<rparr>"
  have "issued e ?st0 (randomUUID e (uuid_calls st))"
    unfolding issued_def by (rule exI [of _ "uuid_calls st"]) simp
  from binv_loop [OF binv_uuid_draw [OF b] this] show ?thesis
    by (simp add: createBatchConversion_def Let_def)
qed

lemma binv_post_conversions_batch:
  "binv e st \<Longrightarrow> binv e (snd (post_conversions_batch e req st))"
  by (simp add: post_conversions_batch_def Let_def case_prod_beta binv_createBatch
      split: option.splits list.splits)

lemma in_batch_status [simp]:
  "in_batch b (r\<lparr>status := s\<rparr>) = in_batch b r"
  "in_batch b (r\<lparr>status := s, downloadUrl := u, completedAt := t\<rparr>) = in_batch b r"
  by (simp_all add: in_batch_def)

lemma binv_timer_fires: "binv e st \<Longrightarrow> binv e (timer_fires e c rej st)"
  unfolding binv_def
proof (intro allI impI)
  fix k r b
  assume inv: "\<forall>k r b. map_of (conversions st) k = Some r \<longrightarrow> in_batch b r \<longrightarrow> issued e st b"
    and a: "map_of (conversions (timer_fires e c rej st)) k = Some r" and i: "in_batch b r"
  have u: "uuid_calls (timer_fires e c rej st) = uuid_calls st"
  proof (cases "c \<in> set (map fst (timers st))")
    case False
    then show ?thesis by (simp add: timer_fires_unregistered)
  next
    case True
    from timer_fires_registered [OF True, of e rej] show ?thesis
      by (auto simp: conversion_task_frame)
  qed
  from a have "getConversion k (timer_fires e c rej st) = Some r"
    by (simp add: getConversion_def)
  then obtain r0 where "map_of (conversions st) k = Some r0" "in_batch b r0 = in_batch b r"
    unfolding timer_fires_lookup
    by (auto simp: getConversion_def split: if_splits option.splits)
  with inv i have "issued e st b" by blast
  then show "issued e (timer_fires e c rej st) b"
    by (simp add: issued_def u)
qed

lemma binv_delete: "binv e st \<Longrightarrow> binv e (snd (deleteConversion c st))"
proof -
  assume b: "binv e st"
  have "\<And>k r. map_of (AList.delete c (conversions st)) k = Some r
      \<Longrightarrow> map_of (conversions st) k = Some r"
    by (simp add: delete_conv' split: if_splits)
  with b show ?thesis
    unfolding binv_def deleteConversion_def issued_def by (simp; blast)
qed

lemma binv_step: "binv e st \<Longrightarrow> binv e (step e ev st)"
  by (cases ev)
     (simp_all add: binv_post_conversions binv_post_convert binv_post_conversions_batch
        binv_timer_fires binv_delete)

lemma binv_run: "binv e st \<Longrightarrow> binv e (run e evs st)"
  unfolding run_def by (induction evs arbitrary: st) (simp_all add: binv_step)

lemma reachable_fresh:
  assumes i: "inj (randomUUID e)"
  shows "(\<forall>i < n. randomUUID e (Suc (uuid_calls (run e evs initial_state)) + i)
            \<notin> fst ` set (conversions (run e evs initial_state)))
       \<and> (\<forall>r \<in> snd ` set (conversions (run e evs initial_state)).
            \<not> in_batch (randomUUID e (uuid_calls (run e evs initial_state))) r)"
proof -
  let ?st = "run e evs initial_state"
  have g: "ginv e [] ?st" by (rule ginv_run [OF i ginv_initial])
  have b: "binv e ?st" by (rule binv_run [OF binv_initial])
  have new: "\<not> issued e ?st (randomUUID e (uuid_calls ?st + m))" for m
    using i by (auto simp: issued_def dest: injD)
  have 1: "randomUUID e (Suc (uuid_calls ?st) + m) \<notin> fst ` set (conversions ?st)" for m
  proof
    assume "randomUUID e (Suc (uuid_calls ?st) + m) \<in> fst ` set (conversions ?st)"
    then obtain r where "map_of (conversions ?st) (randomUUID e (Suc (uuid_calls ?st) + m)) = Some r"
      by (metis map_of_eq_None_iff not_Some_eq)
    from ginv_stored_issued [OF g this] new [of "Suc m"] show False by simp
  qed
  have 2: "\<not> in_batch (randomUUID e (uuid_calls ?st)) r" if "r \<in> snd ` set (conversions ?st)" for r
  proof
    assume ib: "in_batch (randomUUID e (uuid_calls ?st)) r"
    from that obtain k where "(k, r) \<in> set (conversions ?st)" by force
    with ginv_distinct_keys [OF g] have "map_of (conversions ?st) k = Some r" by simp
    with b ib have "issued e ?st (randomUUID e (uuid_calls ?st))" unfolding binv_def by blast
    with new [of 0] show False by simp
  qed
  from 1 2 show ?thesis by blast
qed

section \<open>The example run\<close>

lemma inj_example: "inj (randomUUID example_env)"
proof (rule injI)
  fix x y assume "randomUUID example_env x = randomUUID example_env y"
  then have "length (replicate (Suc x) CHR ''u'') = length (replicate (Suc y) CHR ''u'')"
    by (simp add: example_env_def)
  then show "x = y" by simp
qed

lemma example_post:
  "post_conversions example_env example_request initial_state
     = (Json 201 (ConversionBody example_conversion), example_state)"
  by (simp add: post_conversions_def example_request_def example_env_def initial_state_def
      missing_format_def parse_settings_def conversion_data_def quality_or_high_def
      createConversion_def Let_def example_upload_def processingTime_def
      example_conversion_def example_state_def)

lemma example_run: "run example_env [PostConversions example_request] initial_state = example_state"
  by (simp add: run_def example_post)

lemma example_stored: "getConversion ''u'' example_state = Some example_conversion"
  by (simp add: getConversion_def example_state_def)

lemma example_fired:
  "getConversion ''u'' (run example_env [TimerFires ''u'' False] example_state)
     = Some (example_conversion\<lparr>status := ''completed'',
          downloadUrl := Some ''/api/download/u'', completedAt := Some 1001\<rparr>)"
  by (simp add: run_def timer_fires_lookup example_stored)
     (simp add: example_state_def example_env_def)

section \<open>Status of a conversion along a run\<close>




section \<open>A single submission and its deferred task\<close>

text \<open>
  Claim C2. A request to \<open>POST /api/conversions\<close> with a file and both formats, whose
  record the insert schema accepts, is answered with 201 and a conversion of status
  \<open>pending\<close> that is stored under its id and has a callback registered. In any later state
  that still holds the conversion, the task run without rejection leaves under that id a
  record with status \<open>completed\<close>, the download reference \<open>/api/download/<id>\<close> and a
  completion time.
\<close>

theorem post_conversions_completes:
  assumes fl: "req_file req = Some file"
    and f: "body_fromFormat req = Some f" "f \<noteq> []"
    and t: "body_toFormat req = Some t" "t \<noteq> []"
    and ok: "insertConversionSchema e
       (conversion_data (Some f) (Some t) file
          [(''quality'', quality_or_high (body_quality req)),
           (''settings'', fst (parse_settings e (body_settings req) st))])"
  shows "\<exists>job st1. post_conversions e req st = (Json 201 (ConversionBody job), st1)
      \<and> status job = ''pending''
      \<and> getConversion (conversion_id job) st1 = Some job
      \<and> conversion_id job \<in> set (map fst (timers st1))
      \<and> (\<forall>st2 r. getConversion (conversion_id job) st2 = Some r \<longrightarrow>
            (\<exists>r'. getConversion (conversion_id job)
                    (conversion_task e NewEndpoint False (conversion_id job) st2) = Some r'
               \<and> status r' = ''completed''
               \<and> downloadUrl r' = Some (''/api/download/'' @ conversion_id job)
               \<and> completedAt r' = Some (clock e (date_calls st2))))"
proof -
  let ?st1 = "snd (parse_settings e (body_settings req) st)"
  let ?data = "conversion_data (Some f) (Some t) file
            [(''quality'', quality_or_high (body_quality req)),
             (''settings'', fst (parse_settings e (body_settings req) st))]"
  let ?job = "fst (createConversion e ?data ?st1)"
  let ?st2 = "snd (createConversion e ?data ?st1)"
  let ?st3 = "?st2\<lparr>timers := timers ?st2 @
                 [(conversion_id ?job, 100 + processingTime (body_quality req), NewEndpoint)]\<rparr>"
  have r: "post_conversions e req st = (Json 201 (ConversionBody ?job), ?st3)"
    using post_conversions_accepted [OF fl f t ok] by (simp add: Let_def)
  have p: "status ?job = ''pending''"
    by (simp add: createConversion_record conversion_data_def)
  have s: "getConversion (conversion_id ?job) ?st3 = Some ?job"
    using createConversion_stored [of e ?data ?st1] by simp
  have tm: "conversion_id ?job \<in> set (map fst (timers ?st3))"
    by simp
  have c: "\<forall>st2 r. getConversion (conversion_id ?job) st2 = Some r \<longrightarrow>
            (\<exists>r'. getConversion (conversion_id ?job)
                    (conversion_task e NewEndpoint False (conversion_id ?job) st2) = Some r'
               \<and> status r' = ''completed''
               \<and> downloadUrl r' = Some (''/api/download/'' @ conversion_id ?job)
               \<and> completedAt r' = Some (clock e (date_calls st2)))"
    by (simp add: conversion_task_present)
  from r p s tm c show ?thesis by blast
qed

theorem post_conversions_completes_witness:
  "req_file example_request = Some example_upload
   \<and> body_fromFormat example_request = Some ''docx'' \<and> ''docx'' \<noteq> []
   \<and> body_toFormat example_request = Some ''pdf'' \<and> ''pdf'' \<noteq> []
   \<and> insertConversionSchema example_env
       (conversion_data (Some ''docx'') (Some ''pdf'') example_upload
          [(''quality'', quality_or_high (body_quality example_request)),
           (''settings'',
            fst (parse_settings example_env (body_settings example_request) initial_state))])
   \<and> (\<exists>job st1.
         post_conversions example_env example_request initial_state
           = (Json 201 (ConversionBody job), st1)
         \<and> status job = ''pending''
         \<and> (\<exists>r'. getConversion (conversion_id job)
                    (conversion_task example_env NewEndpoint False (conversion_id job) st1) = Some r'
               \<and> status r' = ''completed''
               \<and> downloadUrl r' = Some (''/api/download/'' @ conversion_id job)
               \<and> completedAt r' = Some (clock example_env (date_calls st1))))"
proof -
  have h1: "req_file example_request = Some example_upload"
    and h2: "body_fromFormat example_request = Some ''docx''"
    and h3: "''docx'' \<noteq> []"
    and h4: "body_toFormat example_request = Some ''pdf''"
    and h5: "''pdf'' \<noteq> []"
    by (simp_all add: example_request_def)
  have h6: "insertConversionSchema example_env
       (conversion_data (Some ''docx'') (Some ''pdf'') example_upload
          [(''quality'', quality_or_high (body_quality example_request)),
           (''settings'',
            fst (parse_settings example_env (body_settings example_request) initial_state))])"
    by (simp add: example_env_def)
  from post_conversions_completes [OF h1 h2 h3 h4 h5 h6]
  obtain job st1 where
    "post_conversions example_env example_request initial_state
       = (Json 201 (ConversionBody job), st1)"
    "status job = ''pending''"
    "getConversion (conversion_id job) st1 = Some job"
    "\<forall>st2 r. getConversion (conversion_id job) st2 = Some r \<longrightarrow>
        (\<exists>r'. getConversion (conversion_id job)
                (conversion_task example_env NewEndpoint False (conversion_id job) st2) = Some r'
           \<and> status r' = ''completed''
           \<and> downloadUrl r' = Some (''/api/download/'' @ conversion_id job)
           \<and> completedAt r' = Some (clock example_env (date_calls st2)))"
    by blast
  with h1 h2 h3 h4 h5 h6 show ?thesis by blast
qed

section \<open>Batch creation\<close>

text \<open>
  Claim C3. Let \<open>randomUUID\<close> never return the same identifier twice, let the identifiers
  it returns during the call not be keys of the store, and let no stored record carry the
  new batch id (\<open>reachable_fresh\<close>: so it is in every state of a run). Then
  \<open>createBatchConversion\<close> returns one conversion per spec, in order, each being what
  \<open>createConversion\<close> returns for the spec with the stamped metadata, each stored under
  its id. The metadata of every member has \<open>batchId\<close> equal to the one generated batch id
  and \<open>batchSize\<close> equal to the number of specs, and every other key of the caller's
  metadata object with the caller's value (for an array or a string, which a spread
  copies by index, every index with its element or character; for any other value no
  further key). \<open>getBatchConversions\<close> of the batch id returns exactly this list. The
  length of the list is not restricted.
\<close>

theorem createBatchConversion_members:
  assumes i: "inj (randomUUID e)"
    and fresh_ids: "\<forall>i < length specs.
        randomUUID e (Suc (uuid_calls st) + i) \<notin> fst ` set (conversions st)"
    and fresh_batch: "\<forall>r \<in> snd ` set (conversions st).
        \<not> in_batch (randomUUID e (uuid_calls st)) r"
  shows "let batchId = randomUUID e (uuid_calls st);
             jobs = fst (createBatchConversion e specs st);
             st' = snd (createBatchConversion e specs st)
         in length jobs = length specs
          \<and> (\<forall>i < length specs.
                jobs ! i =
                  fst (createConversion e
                        ((specs ! i)\<lparr>ins_metadata :=
                           Some (batch_metadata (ins_metadata (specs ! i)) batchId
                                  (length specs))\<rparr>)
                        (st\<lparr>uuid_calls := Suc (uuid_calls st) + i,
                            date_calls := date_calls st + i\<rparr>))
              \<and> get_prop (metadata (jobs ! i)) ''batchId'' = Some (JStr batchId)
              \<and> get_prop (metadata (jobs ! i)) ''batchSize'' = Some (JNum (int (length specs)))
              \<and> (\<forall>kvs k. ins_metadata (specs ! i) = Some (JObj kvs)
                    \<and> k \<noteq> ''batchId'' \<and> k \<noteq> ''batchSize'' \<longrightarrow>
                    get_prop (metadata (jobs ! i)) k = map_of kvs k)
              \<and> (\<forall>xs j. ins_metadata (specs ! i) = Some (JArr xs) \<and> j < length xs \<longrightarrow>
                    get_prop (metadata (jobs ! i)) (string_of_nat j) = Some (xs ! j))
              \<and> (\<forall>str j. ins_metadata (specs ! i) = Some (JStr str) \<and> j < length str \<longrightarrow>
                    get_prop (metadata (jobs ! i)) (string_of_nat j) = Some (JStr [str ! j]))
              \<and> (\<forall>k. k \<noteq> ''batchId'' \<and> k \<noteq> ''batchSize''
                    \<and> (\<forall>kvs. ins_metadata (specs ! i) \<noteq> Some (JObj kvs))
                    \<and> (\<forall>xs. ins_metadata (specs ! i) \<noteq> Some (JArr xs))
                    \<and> (\<forall>str. ins_metadata (specs ! i) \<noteq> Some (JStr str)) \<longrightarrow>
                    get_prop (metadata (jobs ! i)) k = None)
              \<and> getConversion (conversion_id (jobs ! i)) st' = Some (jobs ! i))
          \<and> getBatchConversions batchId st' = jobs"
proof -
  let ?n = "uuid_calls st"
  let ?b = "randomUUID e ?n"
  let ?N = "length specs"
  let ?st0 = "st\<lparr>uuid_calls := Suc ?n\<rparr>"
  let ?jobs = "fst (createBatch_loop e ?b ?N specs [] ?st0)"
  let ?st' = "snd (createBatch_loop e ?b ?N specs [] ?st0)"
  let ?stamped = "\<lambda>i. (specs ! i)\<lparr>ins_metadata :=
       Some (batch_metadata (ins_metadata (specs ! i)) ?b ?N)\<rparr>"
  have cb: "createBatchConversion e specs st = createBatch_loop e ?b ?N specs [] ?st0"
    by (simp add: createBatchConversion_def Let_def)
  have len: "length ?jobs = ?N"
    by (rule createBatch_loop_length)
  have nth: "?jobs ! i =
      fst (createConversion e (?stamped i)
             (st\<lparr>uuid_calls := Suc ?n + i, date_calls := date_calls st + i\<rparr>))"
    if "i < ?N" for i
    using createBatch_loop_nth [OF that, of e ?b ?N ?st0] by simp
  have ident: "conversion_id (?jobs ! i) = randomUUID e (Suc ?n + i)" if "i < ?N" for i
    unfolding nth [OF that] by (simp add: createConversion_record)
  have meta: "metadata (?jobs ! i) = batch_metadata (ins_metadata (specs ! i)) ?b ?N"
    if "i < ?N" for i
    unfolding nth [OF that] by (simp add: createConversion_metadata)
  have f0: "\<forall>i < ?N. randomUUID e (uuid_calls ?st0 + i) \<notin> fst ` set (conversions ?st0)"
    using fresh_ids by simp
  have conv: "conversions ?st' = conversions st @ map (\<lambda>j. (conversion_id j, j)) ?jobs"
    using createBatch_loop_conversions [OF i f0, of ?b ?N] by simp
  have dist: "distinct (map conversion_id ?jobs)"
  proof -
    have "map conversion_id ?jobs ! a \<noteq> map conversion_id ?jobs ! c"
      if "a < ?N" "c < ?N" "a \<noteq> c" for a c
    proof -
      from that i have "randomUUID e (Suc ?n + a) \<noteq> randomUUID e (Suc ?n + c)"
        by (auto dest: injD)
      with that show ?thesis by (simp add: len ident)
    qed
    then show ?thesis by (simp add: distinct_conv_nth len)
  qed
  have stored: "getConversion (conversion_id (?jobs ! i)) ?st' = Some (?jobs ! i)"
    if a: "i < ?N" for i
  proof -
    have 1: "conversion_id (?jobs ! i) \<notin> fst ` set (conversions st)"
      unfolding ident [OF a] using fresh_ids a by blast
    have 2: "distinct (map fst (map (\<lambda>j. (conversion_id j, j)) ?jobs))"
      using dist by (simp add: comp_def)
    have "?jobs ! i \<in> set ?jobs" using a len by simp
    then have 3: "(conversion_id (?jobs ! i), ?jobs ! i)
        \<in> set (map (\<lambda>j. (conversion_id j, j)) ?jobs)"
      by auto
    show ?thesis
      unfolding getConversion_def conv by (rule map_of_appended [OF 1 2 3])
  qed
  have members: "filter (in_batch ?b) ?jobs = ?jobs"
  proof -
    have "in_batch ?b j" if "j \<in> set ?jobs" for j
    proof -
      from that obtain i where "i < ?N" "j = ?jobs ! i"
        by (auto simp: in_set_conv_nth len)
      with meta [of i] show ?thesis by (simp add: in_batch_batch_metadata)
    qed
    then show ?thesis by simp
  qed
  have others: "filter (in_batch ?b) (map snd (conversions st)) = []"
    using fresh_batch by (simp add: filter_empty_conv)
  have batch: "getBatchConversions ?b ?st' = ?jobs"
    unfolding getBatchConversions_def conv
    by (simp add: others members comp_def)
  have each: "?jobs ! i =
        fst (createConversion e (?stamped i)
               (st\<lparr>uuid_calls := Suc ?n + i, date_calls := date_calls st + i\<rparr>))
      \<and> get_prop (metadata (?jobs ! i)) ''batchId'' = Some (JStr ?b)
      \<and> get_prop (metadata (?jobs ! i)) ''batchSize'' = Some (JNum (int ?N))
      \<and> (\<forall>kvs k. ins_metadata (specs ! i) = Some (JObj kvs)
            \<and> k \<noteq> ''batchId'' \<and> k \<noteq> ''batchSize'' \<longrightarrow>
            get_prop (metadata (?jobs ! i)) k = map_of kvs k)
      \<and> (\<forall>xs j. ins_metadata (specs ! i) = Some (JArr xs) \<and> j < length xs \<longrightarrow>
            get_prop (metadata (?jobs ! i)) (string_of_nat j) = Some (xs ! j))
      \<and> (\<forall>str j. ins_metadata (specs ! i) = Some (JStr str) \<and> j < length str \<longrightarrow>
            get_prop (metadata (?jobs ! i)) (string_of_nat j) = Some (JStr [str ! j]))
      \<and> (\<forall>k. k \<noteq> ''batchId'' \<and> k \<noteq> ''batchSize''
            \<and> (\<forall>kvs. ins_metadata (specs ! i) \<noteq> Some (JObj kvs))
            \<and> (\<forall>xs. ins_metadata (specs ! i) \<noteq> Some (JArr xs))
            \<and> (\<forall>str. ins_metadata (specs ! i) \<noteq> Some (JStr str)) \<longrightarrow>
            get_prop (metadata (?jobs ! i)) k = None)
      \<and> getConversion (conversion_id (?jobs ! i)) ?st' = Some (?jobs ! i)"
    if a: "i < ?N" for i
  proof (intro conjI)
    show "?jobs ! i =
        fst (createConversion e (?stamped i)
               (st\<lparr>uuid_calls := Suc ?n + i, date_calls := date_calls st + i\<rparr>))"
      by (rule nth [OF a])
    show "get_prop (metadata (?jobs ! i)) ''batchId'' = Some (JStr ?b)"
      by (simp add: meta [OF a] batch_metadata_lookup)
    show "get_prop (metadata (?jobs ! i)) ''batchSize'' = Some (JNum (int ?N))"
      by (simp add: meta [OF a] batch_metadata_lookup)
    show "\<forall>kvs k. ins_metadata (specs ! i) = Some (JObj kvs)
            \<and> k \<noteq> ''batchId'' \<and> k \<noteq> ''batchSize'' \<longrightarrow>
            get_prop (metadata (?jobs ! i)) k = map_of kvs k"
      by (simp add: meta [OF a] batch_metadata_lookup)
    show "\<forall>xs j. ins_metadata (specs ! i) = Some (JArr xs) \<and> j < length xs \<longrightarrow>
            get_prop (metadata (?jobs ! i)) (string_of_nat j) = Some (xs ! j)"
      by (simp add: meta [OF a] batch_metadata_lookup string_of_nat_not_batch_key spread_array
          del: spread.simps)
    show "\<forall>str j. ins_metadata (specs ! i) = Some (JStr str) \<and> j < length str \<longrightarrow>
            get_prop (metadata (?jobs ! i)) (string_of_nat j) = Some (JStr [str ! j])"
    proof (intro allI impI)
      fix str j
      assume h: "ins_metadata (specs ! i) = Some (JStr str) \<and> j < length str"
      then have "str \<noteq> []" by auto
      with h show "get_prop (metadata (?jobs ! i)) (string_of_nat j) = Some (JStr [str ! j])"
        by (simp add: meta [OF a] batch_metadata_lookup string_of_nat_not_batch_key
            spread_string del: spread.simps)
    qed
    show "\<forall>k. k \<noteq> ''batchId'' \<and> k \<noteq> ''batchSize''
            \<and> (\<forall>kvs. ins_metadata (specs ! i) \<noteq> Some (JObj kvs))
            \<and> (\<forall>xs. ins_metadata (specs ! i) \<noteq> Some (JArr xs))
            \<and> (\<forall>str. ins_metadata (specs ! i) \<noteq> Some (JStr str)) \<longrightarrow>
            get_prop (metadata (?jobs ! i)) k = None"
    proof (intro allI impI)
      fix k
      assume h: "k \<noteq> ''batchId'' \<and> k \<noteq> ''batchSize''
            \<and> (\<forall>kvs. ins_metadata (specs ! i) \<noteq> Some (JObj kvs))
            \<and> (\<forall>xs. ins_metadata (specs ! i) \<noteq> Some (JArr xs))
            \<and> (\<forall>str. ins_metadata (specs ! i) \<noteq> Some (JStr str))"
      show "get_prop (metadata (?jobs ! i)) k = None"
      proof (cases "ins_metadata (specs ! i)")
        case None
        with h show ?thesis by (simp add: meta [OF a] batch_metadata_lookup)
      next
        case (Some m)
        with h have "spread m = []" by (intro spread_other) auto
        with h Some show ?thesis by (simp add: meta [OF a] batch_metadata_lookup)
      qed
    qed
    show "getConversion (conversion_id (?jobs ! i)) ?st' = Some (?jobs ! i)"
      by (rule stored [OF a])
  qed
  from len each batch show ?thesis
    unfolding cb Let_def by blast
qed

theorem createBatchConversion_members_witness:
  "inj (randomUUID example_env)
   \<and> randomUUID example_env (Suc (uuid_calls example_state) + 0) \<noteq> ''u''
   \<and> randomUUID example_env (Suc (uuid_calls example_state) + 1) \<noteq> ''u''
   \<and> randomUUID example_env (Suc (uuid_calls example_state) + 2) \<noteq> ''u''
   \<and> \<not> in_batch (randomUUID example_env (uuid_calls example_state)) example_conversion
   \<and> length (fst (createBatchConversion example_env
                    [example_spec, example_spec, example_spec] example_state)) = 3
   \<and> getBatchConversions ''uu''
        (snd (createBatchConversion example_env
                [example_spec, example_spec, example_spec] example_state))
       = fst (createBatchConversion example_env
                [example_spec, example_spec, example_spec] example_state)
   \<and> get_prop
        (metadata (fst (createBatchConversion example_env
                          [example_spec, example_spec, example_spec] example_state) ! 2))
        ''batchSize'' = Some (JNum 3)
   \<and> ins_metadata ([example_spec, example_spec, example_spec] ! 2)
       = Some (JObj [(''quality'', JStr ''low''), (''settings'', JObj []),
                     (''isBatch'', JBool True)])
   \<and> get_prop
        (metadata (fst (createBatchConversion example_env
                          [example_spec, example_spec, example_spec] example_state) ! 2))
        ''quality'' = Some (JStr ''low'')
   \<and> get_prop
        (metadata (fst (createBatchConversion example_env
                          [example_spec, example_spec, example_spec] example_state) ! 2))
        ''isBatch'' = Some (JBool True)
   \<and> get_prop
        (metadata (fst (createBatchConversion example_env
                          [example_spec, example_spec, example_spec] example_state) ! 2))
        ''batchId'' = Some (JStr ''uu'')"
proof -
  let ?specs = "[example_spec, example_spec, example_spec]"
  have f: "\<forall>i < length ?specs.
        randomUUID example_env (Suc (uuid_calls example_state) + i)
          \<notin> fst ` set (conversions example_state)"
    by (simp add: example_env_def example_state_def)
  have b: "\<forall>r \<in> snd ` set (conversions example_state).
        \<not> in_batch (randomUUID example_env (uuid_calls example_state)) r"
    by (simp add: example_env_def example_state_def in_batch_def example_conversion_def)
  have u: "randomUUID example_env (uuid_calls example_state) = ''uu''"
    by (simp add: example_env_def example_state_def)
  note m = createBatchConversion_members [OF inj_example f b, unfolded Let_def u]
  let ?jobs = "fst (createBatchConversion example_env ?specs example_state)"
  have len: "length ?jobs = length ?specs"
    by (rule m [THEN conjunct1])
  have batch: "getBatchConversions ''uu''
      (snd (createBatchConversion example_env ?specs example_state)) = ?jobs"
    by (rule m [THEN conjunct2, THEN conjunct2])
  have two: "2 < length ?specs" by simp
  note member = m [THEN conjunct2, THEN conjunct1, rule_format, OF two]
  have batchId: "get_prop (metadata (?jobs ! 2)) ''batchId'' = Some (JStr ''uu'')"
    by (rule member [THEN conjunct2, THEN conjunct1])
  have "get_prop (metadata (?jobs ! 2)) ''batchSize'' = Some (JNum (int (length ?specs)))"
    by (rule member [THEN conjunct2, THEN conjunct2, THEN conjunct1])
  then have size: "get_prop (metadata (?jobs ! 2)) ''batchSize'' = Some (JNum 3)"
    by simp
  have given: "ins_metadata example_spec
       = Some (JObj [(''quality'', JStr ''low''), (''settings'', JObj []),
                     (''isBatch'', JBool True)])"
    by (simp add: example_spec_def conversion_data_def)
  note keys = member [THEN conjunct2, THEN conjunct2, THEN conjunct2, THEN conjunct1,
      rule_format]
  have "get_prop (metadata (?jobs ! 2)) ''quality''
      = map_of [(''quality'', JStr ''low''), (''settings'', JObj []), (''isBatch'', JBool True)]
          ''quality''"
    by (rule keys) (simp add: given)
  then have quality: "get_prop (metadata (?jobs ! 2)) ''quality'' = Some (JStr ''low'')"
    by simp
  have "get_prop (metadata (?jobs ! 2)) ''isBatch''
      = map_of [(''quality'', JStr ''low''), (''settings'', JObj []), (''isBatch'', JBool True)]
          ''isBatch''"
    by (rule keys) (simp add: given)
  then have isBatch: "get_prop (metadata (?jobs ! 2)) ''isBatch'' = Some (JBool True)"
    by simp
  have ids: "randomUUID example_env (Suc (uuid_calls example_state) + 0) \<noteq> ''u''"
    "randomUUID example_env (Suc (uuid_calls example_state) + 1) \<noteq> ''u''"
    "randomUUID example_env (Suc (uuid_calls example_state) + 2) \<noteq> ''u''"
    by (simp_all add: example_env_def example_state_def)
  have nb: "\<not> in_batch (randomUUID example_env (uuid_calls example_state)) example_conversion"
    by (simp add: in_batch_def example_conversion_def)
  from inj_example ids nb len batch size given quality isBatch batchId
  show ?thesis by simp
qed

section \<open>Download reference and status\<close>

text \<open>
  Claim C4. In every state of a run from the initial state, with \<open>randomUUID\<close> never
  returning the same identifier twice, a stored conversion has a download reference if and
  only if its status is \<open>completed\<close>.
\<close>

theorem downloadUrl_iff_completed:
  assumes "inj (randomUUID e)"
    and "getConversion cid (run e evs initial_state) = Some r"
  shows "(downloadUrl r \<noteq> None) = (status r = ''completed'')"
proof -
  have g: "ginv e [] (run e evs initial_state)"
    by (rule ginv_run [OF assms(1) ginv_initial])
  from ginv_getConversion(2) [OF g assms(2)] show ?thesis
    by (auto simp: record_ok_def split: if_splits)
qed

theorem downloadUrl_iff_completed_witness:
  "inj (randomUUID example_env)
   \<and> getConversion ''u''
       (run example_env [PostConversions example_request, TimerFires ''u'' False] initial_state)
     = Some (example_conversion\<lparr>status := ''completed'',
          downloadUrl := Some ''/api/download/u'', completedAt := Some 1001\<rparr>)
   \<and> (downloadUrl (example_conversion\<lparr>status := ''completed'',
          downloadUrl := Some ''/api/download/u'', completedAt := Some 1001\<rparr>) \<noteq> None)
     = (status (example_conversion\<lparr>status := ''completed'',
          downloadUrl := Some ''/api/download/u'', completedAt := Some 1001\<rparr>) = ''completed'')"
proof -
  have "run example_env [PostConversions example_request, TimerFires ''u'' False] initial_state
      = run example_env [TimerFires ''u'' False] example_state"
    using example_run by (simp add: run_def)
  then have a: "getConversion ''u''
       (run example_env [PostConversions example_request, TimerFires ''u'' False] initial_state)
     = Some (example_conversion\<lparr>status := ''completed'',
          downloadUrl := Some ''/api/download/u'', completedAt := Some 1001\<rparr>)"
    by (simp add: example_fired)
  from downloadUrl_iff_completed [OF inj_example a] inj_example a show ?thesis by simp
qed

section \<open>Deferred update of a deleted conversion\<close>

text \<open>
  Claim C5. \<open>updateConversion\<close> on an id that the store does not hold returns
  \<open>undefined\<close> and leaves the state as it is, so the deferred task of a conversion deleted
  in the meantime changes no record. The model of \<open>updateConversion\<close> has no error result
  because the method has no statement that throws. When the update of the \<open>try\<close> block is
  rejected, the task makes exactly one further update, which writes the status \<open>failed\<close>.
\<close>

theorem deferred_update_after_delete:
  "(getConversion cid st = None \<longrightarrow>
      updateConversion cid updates st = (None, st)
      \<and> conversions (conversion_task e ep rejected cid st) = conversions st)
   \<and> getConversion cid (snd (deleteConversion cid st)) = None
   \<and> conversions (conversion_task e ep True cid st) =
       conversions (snd (updateConversion cid failed_updates st))
   \<and> (\<forall>r. getConversion cid st = Some r \<longrightarrow>
        getConversion cid (conversion_task e ep True cid st) = Some (r\<lparr>status := ''failed''\<rparr>))"
proof -
  have "conversions (conversion_task e ep True cid st) =
       conversions (snd (updateConversion cid failed_updates st))"
    by (simp add: conversion_task_def Let_def updateConversion_def getConversion_def
        split: option.splits)
  moreover have "getConversion cid (snd (deleteConversion cid st)) = None"
    by (simp add: deleteConversion_def getConversion_def delete_conv')
  ultimately show ?thesis
    by (simp add: updateConversion_absent conversion_task_absent conversion_task_present)
qed

theorem deferred_update_after_delete_witness:
  "getConversion ''u'' (snd (deleteConversion ''u'' example_state)) = None
   \<and> updateConversion ''u'' (completed_updates ''u'' 1001)
       (snd (deleteConversion ''u'' example_state))
     = (None, snd (deleteConversion ''u'' example_state))
   \<and> getConversion ''u'' example_state = Some example_conversion
   \<and> getConversion ''u'' (conversion_task example_env NewEndpoint True ''u'' example_state)
     = Some (example_conversion\<lparr>status := ''failed''\<rparr>)"
proof -
  have h: "getConversion ''u'' example_state = Some example_conversion"
    by (simp add: getConversion_def example_state_def)
  show ?thesis
    using h
      deferred_update_after_delete [of "''u''" "snd (deleteConversion ''u'' example_state)"
        "completed_updates ''u'' 1001" example_env NewEndpoint False]
      deferred_update_after_delete
        [of "''u''" example_state failed_updates example_env NewEndpoint True]
    by simp
qed

section \<open>Download of a conversion\<close>

text \<open>
  Claim C6. \<open>GET /api/download/:id\<close> answers 404 for an id that the store does not hold,
  400 (never 404) for a stored conversion whose status is not \<open>completed\<close>, and for a
  completed one either the download of the stored path or 404, according to whether the file
  at that path can be accessed.
\<close>

theorem get_download_outcomes:
  "(getConversion cid st = None \<longrightarrow>
      get_download e cid st = Json 404 (ErrorBody ''Conversion not found''))
   \<and> (\<forall>c. getConversion cid st = Some c \<and> status c \<noteq> ''completed'' \<longrightarrow>
        get_download e cid st = Json 400 (ErrorBody ''Conversion not completed'')
        \<and> (\<forall>b. get_download e cid st \<noteq> Json 404 b))
   \<and> (\<forall>c. getConversion cid st = Some c \<and> status c = ''completed'' \<longrightarrow>
        get_download e cid st =
          (if fs_access e (filePath c)
           then Download (filePath c)
                  (path_basename e (originalFilename c) (path_extname e (originalFilename c))
                     @ ''_converted.'' @ toFormat c)
           else Json 404 (ErrorBody ''File not found'')))"
  by (simp add: get_download_def Let_def)

theorem get_download_outcomes_witness:
  "getConversion ''job-2'' example_state = None
   \<and> get_download example_env ''job-2'' example_state
       = Json 404 (ErrorBody ''Conversion not found'')
   \<and> getConversion ''u'' example_state = Some example_conversion
   \<and> status example_conversion \<noteq> ''completed''
   \<and> get_download example_env ''u'' example_state
       = Json 400 (ErrorBody ''Conversion not completed'')
   \<and> get_download example_env ''u''
        (conversion_task example_env NewEndpoint False ''u'' example_state)
       = Download ''uploads/f1'' ''report_converted.pdf''"
proof -
  have a: "getConversion ''job-2'' example_state = None"
    by (simp add: getConversion_def example_state_def)
  have h: "getConversion ''u'' example_state = Some example_conversion"
    by (simp add: getConversion_def example_state_def)
  have s: "status example_conversion \<noteq> ''completed''"
    by (simp add: example_conversion_def)
  have c: "getConversion ''u'' (conversion_task example_env NewEndpoint False ''u'' example_state)
      = Some (example_conversion\<lparr>status := ''completed'',
           downloadUrl := Some (''/api/download/u''),
           completedAt := Some (clock example_env (date_calls example_state))\<rparr>)"
    using conversion_task_present [OF h, of "''u''" example_env NewEndpoint False] by simp
  show ?thesis
    using a h s c
      get_download_outcomes [of "''job-2''" example_state example_env]
      get_download_outcomes [of "''u''" example_state example_env]
      get_download_outcomes [of "''u''"
        "conversion_task example_env NewEndpoint False ''u'' example_state" example_env]
    by (simp add: example_env_def example_conversion_def)
qed

section \<open>Update is a partial merge\<close>

text \<open>
  Claim C7. For an id that the store holds, \<open>updateConversion\<close> returns and stores a record
  in which every field named in the updates has the given value and every other field has the
  value it had before; the records under other ids stay as they are.
\<close>

theorem updateConversion_partial_merge:
  assumes "getConversion cid st = Some existing"
  shows "\<exists>r. fst (updateConversion cid updates st) = Some r
    \<and> getConversion cid (snd (updateConversion cid updates st)) = Some r
    \<and> conversion_id r = (case upd_id updates of Some v \<Rightarrow> v | None \<Rightarrow> conversion_id existing)
    \<and> fromFormat r = (case upd_fromFormat updates of Some v \<Rightarrow> v | None \<Rightarrow> fromFormat existing)
    \<and> toFormat r = (case upd_toFormat updates of Some v \<Rightarrow> v | None \<Rightarrow> toFormat existing)
    \<and> originalFilename r =
        (case upd_originalFilename updates of Some v \<Rightarrow> v | None \<Rightarrow> originalFilename existing)
    \<and> filePath r = (case upd_filePath updates of Some v \<Rightarrow> v | None \<Rightarrow> filePath existing)
    \<and> fileSize r = (case upd_fileSize updates of Some v \<Rightarrow> v | None \<Rightarrow> fileSize existing)
    \<and> status r = (case upd_status updates of Some v \<Rightarrow> v | None \<Rightarrow> status existing)
    \<and> downloadUrl r =
        (case upd_downloadUrl updates of Some v \<Rightarrow> v | None \<Rightarrow> downloadUrl existing)
    \<and> createdAt r = (case upd_createdAt updates of Some v \<Rightarrow> v | None \<Rightarrow> createdAt existing)
    \<and> completedAt r =
        (case upd_completedAt updates of Some v \<Rightarrow> v | None \<Rightarrow> completedAt existing)
    \<and> metadata r = (case upd_metadata updates of Some v \<Rightarrow> v | None \<Rightarrow> metadata existing)
    \<and> (\<forall>k. k \<noteq> cid \<longrightarrow>
          getConversion k (snd (updateConversion cid updates st)) = getConversion k st)"
proof -
  have u: "updateConversion cid updates st =
      (Some (merge_updates existing updates),
       st\<lparr>conversions := AList.update cid (merge_updates existing updates) (conversions st)\<rparr>)"
    using assms by (rule updateConversion_present)
  show ?thesis
    by (rule exI [of _ "merge_updates existing updates"])
       (simp add: u getConversion_update merge_updates_def pick_case)
qed

theorem updateConversion_partial_merge_witness:
  "getConversion ''u'' example_state = Some example_conversion
   \<and> (\<exists>r. getConversion ''u''
             (snd (updateConversion ''u'' failed_updates example_state)) = Some r
          \<and> status r = ''failed'' \<and> toFormat r = ''pdf'' \<and> downloadUrl r = None)"
proof -
  have h: "getConversion ''u'' example_state = Some example_conversion"
    by (simp add: getConversion_def example_state_def)
  show ?thesis
    using h updateConversion_partial_merge [OF h, of failed_updates]
    by (auto simp: failed_updates_def no_updates_def example_conversion_def)
qed

section \<open>Deletion\<close>

text \<open>
  Claim C8. \<open>deleteConversion\<close> returns whether the store held the id: \<open>false\<close> with
  an unchanged state for an absent id, \<open>true\<close> for a stored one, and \<open>false\<close> again
  when repeated, since the id is absent after the first call.
\<close>

theorem deleteConversion_idempotent:
  "(getConversion cid st = None \<longrightarrow> deleteConversion cid st = (False, st))
   \<and> (getConversion cid st \<noteq> None \<longrightarrow> fst (deleteConversion cid st) = True)
   \<and> getConversion cid (snd (deleteConversion cid st)) = None
   \<and> fst (deleteConversion cid (snd (deleteConversion cid st))) = False"
proof -
  have a: "map_of (conversions st) cid = None \<Longrightarrow> AList.delete cid (conversions st) = conversions st"
    by (simp add: map_of_eq_None_iff)
  show ?thesis
    by (auto simp: deleteConversion_def getConversion_def delete_conv' dest: a)
qed

theorem deleteConversion_idempotent_witness:
  "getConversion ''u'' example_state \<noteq> None
   \<and> fst (deleteConversion ''u'' example_state) = True
   \<and> fst (deleteConversion ''u'' (snd (deleteConversion ''u'' example_state))) = False
   \<and> getConversion ''job-2'' example_state = None
   \<and> deleteConversion ''job-2'' example_state = (False, example_state)"
proof -
  have p: "getConversion ''u'' example_state \<noteq> None"
    by (simp add: getConversion_def example_state_def)
  have a: "getConversion ''job-2'' example_state = None"
    by (simp add: getConversion_def example_state_def)
  show ?thesis
    using p a deleteConversion_idempotent [of "''u''" example_state]
      deleteConversion_idempotent [of "''job-2''" example_state]
    by simp
qed

section \<open>Validation of a single submission\<close>

text \<open>
  Claim C9. \<open>POST /api/conversions\<close> with an absent or empty format answers 400 and leaves
  the state as it is. With settings that \<open>JSON.parse\<close> rejects, the request is still
  answered with 201: the conversion is stored with the settings \<open>{}\<close> and one warning is
  written to the console.
\<close>

theorem post_conversions_validation:
  "((body_fromFormat req = None \<or> body_fromFormat req = Some []
      \<or> body_toFormat req = None \<or> body_toFormat req = Some []) \<longrightarrow>
      (\<exists>msg. post_conversions e req st = (Json 400 (ErrorBody msg), st))
      \<and> (req_file req \<noteq> None \<longrightarrow>
           post_conversions e req st = (Json 400 (ErrorBody ''Missing format parameters''), st)))
   \<and> (req_file req = Some file \<and> body_fromFormat req = Some f \<and> f \<noteq> []
       \<and> body_toFormat req = Some t \<and> t \<noteq> []
       \<and> body_settings req = Some s \<and> s \<noteq> [] \<and> JSON_parse e s = None
       \<and> insertConversionSchema e
            (conversion_data (Some f) (Some t) file
               [(''quality'', quality_or_high (body_quality req)), (''settings'', JObj [])]) \<longrightarrow>
       (\<exists>job st1. post_conversions e req st = (Json 201 (ConversionBody job), st1)
          \<and> get_prop (metadata job) ''settings'' = Some (JObj [])
          \<and> getConversion (conversion_id job) st1 = Some job
          \<and> console st1 = console st @ [Warn ''Invalid settings JSON:'' s]))"
proof (intro conjI impI)
  assume m: "body_fromFormat req = None \<or> body_fromFormat req = Some []
      \<or> body_toFormat req = None \<or> body_toFormat req = Some []"
  then have mf: "missing_format (body_fromFormat req) (body_toFormat req)"
    by (auto simp: missing_format_def)
  then show "\<exists>msg. post_conversions e req st = (Json 400 (ErrorBody msg), st)"
    by (simp add: post_conversions_def split: option.splits)
  from mf show "post_conversions e req st = (Json 400 (ErrorBody ''Missing format parameters''), st)"
    if "req_file req \<noteq> None"
    using that by (auto simp: post_conversions_def split: option.splits)
next
  assume a: "req_file req = Some file \<and> body_fromFormat req = Some f \<and> f \<noteq> []
       \<and> body_toFormat req = Some t \<and> t \<noteq> []
       \<and> body_settings req = Some s \<and> s \<noteq> [] \<and> JSON_parse e s = None
       \<and> insertConversionSchema e
            (conversion_data (Some f) (Some t) file
               [(''quality'', quality_or_high (body_quality req)), (''settings'', JObj [])])"
  then have bs: "body_settings req = Some s" by simp
  from a have ps': "parse_settings e (Some s) st =
      (JObj [], st\<lparr>console := console st @ [Warn ''Invalid settings JSON:'' s]\<rparr>)"
    by (simp add: parse_settings_def)
  have ps: "parse_settings e (body_settings req) st =
      (JObj [], st\<lparr>console := console st @ [Warn ''Invalid settings JSON:'' s]\<rparr>)"
    unfolding bs by (rule ps')
  let ?st1 = "st\<lparr>console := console st @ [Warn ''Invalid settings JSON:'' s]\<rparr>"
  let ?data = "conversion_data (Some f) (Some t) file
            [(''quality'', quality_or_high (body_quality req)), (''settings'', JObj [])]"
  let ?job = "fst (createConversion e ?data ?st1)"
  let ?st2 = "snd (createConversion e ?data ?st1)"
  let ?st3 = "?st2\<lparr>timers := timers ?st2 @
                 [(conversion_id ?job, 100 + processingTime (body_quality req), NewEndpoint)]\<rparr>"
  from a have ok: "insertConversionSchema e
       (conversion_data (Some f) (Some t) file
          [(''quality'', quality_or_high (body_quality req)),
           (''settings'', fst (parse_settings e (body_settings req) st))])"
    unfolding ps by simp
  from a have fl: "req_file req = Some file"
    and f: "body_fromFormat req = Some f" "f \<noteq> []"
    and t: "body_toFormat req = Some t" "t \<noteq> []"
    by simp_all
  have r: "post_conversions e req st = (Json 201 (ConversionBody ?job), ?st3)"
    using post_conversions_accepted [OF fl f t ok] unfolding ps by (simp add: Let_def)
  have m: "get_prop (metadata ?job) ''settings'' = Some (JObj [])"
    by (simp add: createConversion_metadata conversion_data_def)
  have g: "getConversion (conversion_id ?job) ?st3 = Some ?job"
    using createConversion_stored [of e ?data ?st1] by simp
  have c: "console ?st3 = console st @ [Warn ''Invalid settings JSON:'' s]"
    by (simp add: createConversion_state)
  from r m g c
  show "\<exists>job st1. post_conversions e req st = (Json 201 (ConversionBody job), st1)
          \<and> get_prop (metadata job) ''settings'' = Some (JObj [])
          \<and> getConversion (conversion_id job) st1 = Some job
          \<and> console st1 = console st @ [Warn ''Invalid settings JSON:'' s]"
    by blast
qed

theorem post_conversions_validation_witness:
  "body_toFormat (example_request\<lparr>body_toFormat := None\<rparr>) = None
   \<and> req_file (example_request\<lparr>body_toFormat := None\<rparr>) \<noteq> None
   \<and> post_conversions example_env (example_request\<lparr>body_toFormat := None\<rparr>) example_state
       = (Json 400 (ErrorBody ''Missing format parameters''), example_state)
   \<and> body_settings (example_request\<lparr>body_settings := Some ''{bad''\<rparr>) = Some ''{bad''
   \<and> JSON_parse example_env ''{bad'' = None
   \<and> (\<exists>job st1.
         post_conversions example_env (example_request\<lparr>body_settings := Some ''{bad''\<rparr>)
           initial_state = (Json 201 (ConversionBody job), st1)
         \<and> get_prop (metadata job) ''settings'' = Some (JObj [])
         \<and> getConversion (conversion_id job) st1 = Some job
         \<and> console st1 = [Warn ''Invalid settings JSON:'' ''{bad''])"
proof -
  let ?r1 = "example_request\<lparr>body_toFormat := None\<rparr>"
  let ?r2 = "example_request\<lparr>body_settings := Some ''{bad''\<rparr>"
  have a: "body_toFormat ?r1 = None" "req_file ?r1 \<noteq> None"
    by (simp_all add: example_request_def)
  have b: "req_file ?r2 = Some example_upload \<and> body_fromFormat ?r2 = Some ''docx''
      \<and> ''docx'' \<noteq> [] \<and> body_toFormat ?r2 = Some ''pdf'' \<and> ''pdf'' \<noteq> []
      \<and> body_settings ?r2 = Some ''{bad'' \<and> ''{bad'' \<noteq> []
      \<and> JSON_parse example_env ''{bad'' = None
      \<and> insertConversionSchema example_env
            (conversion_data (Some ''docx'') (Some ''pdf'') example_upload
               [(''quality'', quality_or_high (body_quality ?r2)), (''settings'', JObj [])])"
    by (simp add: example_request_def example_env_def)
  from post_conversions_validation [of ?r1 example_env example_state] a
  have 1: "post_conversions example_env ?r1 example_state
       = (Json 400 (ErrorBody ''Missing format parameters''), example_state)"
    by blast
  from post_conversions_validation
    [of ?r2 example_env initial_state example_upload "''docx''" "''pdf''" "''{bad''"] b
  have 2: "\<exists>job st1. post_conversions example_env ?r2 initial_state
           = (Json 201 (ConversionBody job), st1)
         \<and> get_prop (metadata job) ''settings'' = Some (JObj [])
         \<and> getConversion (conversion_id job) st1 = Some job
         \<and> console st1 = console initial_state @ [Warn ''Invalid settings JSON:'' ''{bad'']"
    by blast
  have c: "console initial_state = []" by (simp add: initial_state_def)
  from a b 1 2 show ?thesis unfolding c by simp
qed

section \<open>The failure path writes the status only\<close>

text \<open>
  Claim C10. In a state of a run that holds the conversion, the task whose update was
  rejected leaves under the id the same record with the status \<open>failed\<close> and leaves every
  other record as it is. A conversion whose callback has not run has neither a completion
  time nor a download reference, and so has every conversion with the status \<open>failed\<close>.
\<close>

theorem failure_writes_status_only:
  assumes "inj (randomUUID e)"
    and "getConversion cid (run e evs initial_state) = Some r"
  shows "getConversion cid (conversion_task e ep True cid (run e evs initial_state))
           = Some (r\<lparr>status := ''failed''\<rparr>)
     \<and> (\<forall>k. k \<noteq> cid \<longrightarrow>
           getConversion k (conversion_task e ep True cid (run e evs initial_state))
             = getConversion k (run e evs initial_state))
     \<and> (cid \<in> set (map fst (timers (run e evs initial_state))) \<longrightarrow>
           completedAt r = None \<and> downloadUrl r = None)
     \<and> (status r = ''failed'' \<longrightarrow> completedAt r = None \<and> downloadUrl r = None)"
proof -
  have g: "ginv e [] (run e evs initial_state)"
    by (rule ginv_run [OF assms(1) ginv_initial])
  from ginv_getConversion(2) [OF g assms(2)]
  have "(cid \<in> set (map fst (timers (run e evs initial_state))) \<longrightarrow>
           completedAt r = None \<and> downloadUrl r = None)
     \<and> (status r = ''failed'' \<longrightarrow> completedAt r = None \<and> downloadUrl r = None)"
    by (auto simp: record_ok_def split: if_splits)
  then show ?thesis
    by (simp add: conversion_task_present [OF assms(2)])
qed

theorem failure_writes_status_only_witness:
  "inj (randomUUID example_env)
   \<and> getConversion ''u'' (run example_env [PostConversions example_request] initial_state)
       = Some example_conversion
   \<and> ''u'' \<in> set (map fst (timers (run example_env [PostConversions example_request] initial_state)))
   \<and> getConversion ''u''
       (conversion_task example_env NewEndpoint True ''u''
          (run example_env [PostConversions example_request] initial_state))
       = Some (example_conversion\<lparr>status := ''failed''\<rparr>)
   \<and> completedAt (example_conversion\<lparr>status := ''failed''\<rparr>) = None
   \<and> downloadUrl (example_conversion\<lparr>status := ''failed''\<rparr>) = None"
proof -
  have a: "getConversion ''u'' (run example_env [PostConversions example_request] initial_state)
       = Some example_conversion"
    by (simp add: example_run example_stored)
  have t: "''u'' \<in> set (map fst (timers (run example_env [PostConversions example_request] initial_state)))"
    by (simp add: example_run example_state_def)
  from failure_writes_status_only [OF inj_example a] inj_example a t
  show ?thesis by simp
qed

end
